theory Spec2Isabelle
  imports Complex_Main "HOL-Library.Word" "HOL-Library.Monad_Syntax"
begin

unbundle bit_operations_syntax

section \<open>Bytes, slices and byte order\<close>

text \<open>
  The codecs of package \<open>types\<close> exchange values with \<open>database/sql\<close> as byte
  buffers and strings. A Go string is a sequence of bytes and so is an Isabelle
  \<open>string\<close>; a Go \<open>[]byte\<close> is a window on a backing array and has a length and a
  capacity. \<open>int\<close> is taken as 64 bits wide (lengths and offsets of type \<open>int\<close> are
  natural numbers here, none of them reaches \<open>2^63\<close>); \<open>uint32\<close> and \<open>uint64\<close>
  values are words and wrap around. A \<open>float64\<close> (\<open>float32\<close>) is represented by its
  IEEE-754 bit pattern, so that \<open>math.Float64bits\<close> and \<open>math.Float64frombits\<close>,
  which reinterpret the same 64 bits, are identities.
\<close>

type_synonym byte = "8 word"
type_synonym uint32 = "32 word"
type_synonym uint64 = "64 word"
type_synonym float32 = "32 word"
type_synonym float64 = "64 word"

definition byte_of_char :: "char \<Rightarrow> byte" where
  "byte_of_char c = of_char c"

definition char_of_byte :: "byte \<Rightarrow> char" where
  "char_of_byte b = char_of (unat b)"

definition Float64bits :: "float64 \<Rightarrow> uint64" where
  "Float64bits f = f"

definition Float64frombits :: "uint64 \<Rightarrow> float64" where
  "Float64frombits b = b"

definition Float32bits :: "float32 \<Rightarrow> uint32" where
  "Float32bits f = f"

definition Float32frombits :: "uint32 \<Rightarrow> float32" where
  "Float32frombits b = b"

text \<open>
  A byte slice: \<open>elems\<close> are the \<open>len(s)\<close> bytes that indexing sees, \<open>spare\<close> the
  bytes of the backing array between \<open>len(s)\<close> and \<open>cap(s)\<close>. The slice expression
  \<open>s[lo:hi]\<close> is checked against the capacity, not the length: it panics (\<open>None\<close>)
  unless \<open>lo \<le> hi \<le> cap(s)\<close>.
\<close>

record byteslice =
  elems :: "byte list"
  spare :: "byte list"

definition fresh :: "byte list \<Rightarrow> byteslice" where
  "fresh bs = \<lparr>elems = bs, spare = []\<rparr>"

definition slice_len :: "byteslice \<Rightarrow> nat" where
  "slice_len s = length (elems s)"

definition slice_cap :: "byteslice \<Rightarrow> nat" where
  "slice_cap s = length (elems s) + length (spare s)"

definition reslice :: "byteslice \<Rightarrow> nat \<Rightarrow> nat \<Rightarrow> byteslice option" where
  "reslice s lo hi =
     (if lo \<le> hi \<and> hi \<le> slice_cap s
      then Some \<lparr>elems = take (hi - lo) (drop lo (elems s @ spare s)),
                 spare = drop hi (elems s @ spare s)\<rparr>
      else None)"

text \<open>
  \<open>encoding/binary\<close>: \<open>Uint32\<close> and \<open>Uint64\<close> read the first 4 (8) bytes of a slice and
  panic on a shorter one; \<open>PutUint32\<close> and \<open>PutUint64\<close> write them.
\<close>

datatype ByteOrder = LittleEndian | BigEndian

definition le32 :: "uint32 \<Rightarrow> byte list" where
  "le32 v = [ucast v, ucast (drop_bit 8 v), ucast (drop_bit 16 v), ucast (drop_bit 24 v)]"

definition le64 :: "uint64 \<Rightarrow> byte list" where
  "le64 v = [ucast v, ucast (drop_bit 8 v), ucast (drop_bit 16 v), ucast (drop_bit 24 v),
     ucast (drop_bit 32 v), ucast (drop_bit 40 v), ucast (drop_bit 48 v), ucast (drop_bit 56 v)]"

definition u32_le :: "byte list \<Rightarrow> uint32" where
  "u32_le b = ucast (b ! 0) OR push_bit 8 (ucast (b ! 1)) OR push_bit 16 (ucast (b ! 2))
     OR push_bit 24 (ucast (b ! 3))"

definition u32_be :: "byte list \<Rightarrow> uint32" where
  "u32_be b = ucast (b ! 3) OR push_bit 8 (ucast (b ! 2)) OR push_bit 16 (ucast (b ! 1))
     OR push_bit 24 (ucast (b ! 0))"

definition u64_le :: "byte list \<Rightarrow> uint64" where
  "u64_le b = ucast (b ! 0) OR push_bit 8 (ucast (b ! 1)) OR push_bit 16 (ucast (b ! 2))
     OR push_bit 24 (ucast (b ! 3)) OR push_bit 32 (ucast (b ! 4)) OR push_bit 40 (ucast (b ! 5))
     OR push_bit 48 (ucast (b ! 6)) OR push_bit 56 (ucast (b ! 7))"

definition u64_be :: "byte list \<Rightarrow> uint64" where
  "u64_be b = ucast (b ! 7) OR push_bit 8 (ucast (b ! 6)) OR push_bit 16 (ucast (b ! 5))
     OR push_bit 24 (ucast (b ! 4)) OR push_bit 32 (ucast (b ! 3)) OR push_bit 40 (ucast (b ! 2))
     OR push_bit 48 (ucast (b ! 1)) OR push_bit 56 (ucast (b ! 0))"

definition Uint32 :: "ByteOrder \<Rightarrow> byteslice \<Rightarrow> uint32 option" where
  "Uint32 byteOrder b =
     (if slice_len b < 4 then None
      else Some (case byteOrder of LittleEndian \<Rightarrow> u32_le (elems b) | BigEndian \<Rightarrow> u32_be (elems b)))"

definition Uint64 :: "ByteOrder \<Rightarrow> byteslice \<Rightarrow> uint64 option" where
  "Uint64 byteOrder b =
     (if slice_len b < 8 then None
      else Some (case byteOrder of LittleEndian \<Rightarrow> u64_le (elems b) | BigEndian \<Rightarrow> u64_be (elems b)))"

text \<open>
  The encoders write into a buffer they have just made (\<open>make([]byte, n)\<close>, all zero,
  capacity \<open>n\<close>), through \<open>data[i] = b\<close> and through \<open>PutUint32(data[lo:hi], v)\<close>. The
  buffer is a byte list; each write is checked as Go checks it and gives \<open>None\<close> where
  Go panics.
\<close>

definition set_byte :: "byte list \<Rightarrow> nat \<Rightarrow> byte \<Rightarrow> byte list option" where
  "set_byte data i b = (if i < length data then Some (data[i := b]) else None)"

definition PutUint32_at :: "byte list \<Rightarrow> nat \<Rightarrow> nat \<Rightarrow> uint32 \<Rightarrow> byte list option" where
  "PutUint32_at data lo hi v =
     (if lo \<le> hi \<and> hi \<le> length data \<and> 4 \<le> hi - lo
      then Some (take lo data @ le32 v @ drop (lo + 4) data)
      else None)"

definition PutUint64_at :: "byte list \<Rightarrow> nat \<Rightarrow> nat \<Rightarrow> uint64 \<Rightarrow> byte list option" where
  "PutUint64_at data lo hi v =
     (if lo \<le> hi \<and> hi \<le> length data \<and> 8 \<le> hi - lo
      then Some (take lo data @ le64 v @ drop (lo + 8) data)
      else None)"

section \<open>Values at the driver boundary, errors and outcomes\<close>

text \<open>
  A \<open>driver.Value\<close> handed to \<open>Scan\<close> or returned by \<open>Value\<close> is \<open>nil\<close> (\<open>Null\<close>), a string, a
  byte slice, or a value of another kind (\<open>int64\<close>, \<open>float64\<close>, \<open>bool\<close>, \<open>time.Time\<close>).
\<close>

datatype driver_value = Null | Str string | Bytes byteslice | Other

text \<open>One constructor for each error the codecs build, with the numbers their messages print.\<close>

datatype error =
    UnsupportedType
  | WKBTooShort nat
  | InvalidByteOrder byte
  | WrongGeometryType uint32
  | PointParseFailed string
  | VectorTooShort nat
  | UnknownElementType byte
  | VectorTooShortForDimension nat nat nat
  | InvalidVectorFormat string
  | ElementParseFailed string
  | UnsupportedElementType
  | JSONError

text \<open>
  A method either returns its result together with its \<open>error\<close> (\<open>None\<close> for a nil
  error), or panics. For \<open>Scan\<close> the result is the receiver after the call.
\<close>

datatype 'a outcome = Return 'a "error option" | Panic

text \<open>
  What the codecs take from the Go runtime and standard library, as parameters of the
  model; every theorem holds whatever they are:
  \<^item> \<open>string_spare s\<close>: the bytes between the length and the capacity of a byte slice
    that the runtime or \<open>json.Marshal\<close> allocates for the text \<open>s\<close> (the language fixes
    the length of \<open>[]byte(s)\<close>, not its capacity);
  \<^item> \<open>verb_f\<close>: the verb \<open>%f\<close> of \<open>fmt.Sscanf\<close>, which reads a floating-point number off
    the front of the input and gives the number and the rest of the input, or fails;
  \<^item> \<open>strconv.ParseFloat(s, bitSize)\<close> and \<open>strconv.ParseInt(s, base, bitSize)\<close>
    (\<open>None\<close> for an error), and the conversion \<open>float32(f)\<close>;
  \<^item> \<open>json_string\<close>: the JSON string literal that \<open>encoding/json\<close> writes for a string;
  \<^item> \<open>json_decode_strings\<close>: what \<open>json.Unmarshal\<close> does to a \<open>[]string\<close> on an input
    that is neither \<open>null\<close> nor an empty array (the slice it leaves and its error).
\<close>

record go_lib =
  string_spare :: "string \<Rightarrow> byte list"
  verb_f :: "string \<Rightarrow> (float64 \<times> string) option"
  ParseFloat :: "string \<Rightarrow> nat \<Rightarrow> float64 option"
  ParseInt :: "string \<Rightarrow> nat \<Rightarrow> nat \<Rightarrow> uint64 option"
  float32_of_float64 :: "float64 \<Rightarrow> float32"
  json_string :: "string \<Rightarrow> string"
  json_decode_strings :: "string \<Rightarrow> string list option \<Rightarrow> string list option \<times> error option"

definition bytes_of_string :: "go_lib \<Rightarrow> string \<Rightarrow> byteslice" where
  "bytes_of_string L s = \<lparr>elems = map byte_of_char s, spare = string_spare L s\<rparr>"

definition string_of_bytes :: "byteslice \<Rightarrow> string" where
  "string_of_bytes b = map char_of_byte (elems b)"

section \<open>fmt.Sscanf, for the two formats of Point.Scan\<close>

text \<open>
  The scanner of package \<open>fmt\<close> on ASCII input (one byte for each rune), as the
  package documents it: "Input processed by verbs is implicitly space-delimited: the
  implementation of every verb except \<open>%c\<close> starts by discarding leading spaces from the
  remaining input, [...] and the \<open>%s\<close> verb (and \<open>%v\<close> reading into a string) stops
  consuming input at the first space or newline character." A character of the
  format that is neither a space nor part of a verb must be the next character of the
  input. A space in the format matches one or more spaces of the input (not a
  newline), or the end of the input. Where a verb skips leading spaces, a newline is an
  error for \<open>Sscanf\<close>, and so is the end of the input.
\<close>

definition isSpace :: "char \<Rightarrow> bool" where
  "isSpace c = (c \<in> {CHR '' '', CHR 0x09, CHR 0x0A, CHR 0x0B, CHR 0x0C, CHR 0x0D})"

fun match_literal :: "string \<Rightarrow> string \<Rightarrow> string option" where
  "match_literal [] inp = Some inp"
| "match_literal (c # cs) [] = None"
| "match_literal (c # cs) (d # ds) = (if c = d then match_literal cs ds else None)"

definition match_space :: "string \<Rightarrow> string option" where
  "match_space inp =
     (case inp of
        [] \<Rightarrow> Some []
      | c # cs \<Rightarrow>
          if \<not> isSpace c \<or> c = CHR 0x0A then None
          else Some (dropWhile (\<lambda>d. isSpace d \<and> d \<noteq> CHR 0x0A) cs))"

definition verb_s :: "string \<Rightarrow> (string \<times> string) option" where
  "verb_s inp =
     (case dropWhile (\<lambda>d. isSpace d \<and> d \<noteq> CHR 0x0A) inp of
        [] \<Rightarrow> None
      | c # cs \<Rightarrow>
          if c = CHR 0x0A then None
          else Some (takeWhile (\<lambda>d. \<not> isSpace d) (c # cs), dropWhile (\<lambda>d. \<not> isSpace d) (c # cs)))"

text \<open>\<open>fmt.Sscanf(str, "POINT(%f %f)", &x, &y)\<close>\<close>

definition Sscanf_POINT :: "go_lib \<Rightarrow> string \<Rightarrow> (float64 \<times> float64) option" where
  "Sscanf_POINT L str = do {
     r1 \<leftarrow> match_literal ''POINT('' str;
     (x, r2) \<leftarrow> verb_f L r1;
     r3 \<leftarrow> match_space r2;
     (y, r4) \<leftarrow> verb_f L r3;
     r5 \<leftarrow> match_literal '')'' r4;
     Some (x, y)
   }"

text \<open>\<open>fmt.Sscanf(str, "%s(%f %f)", &pointPrefix, &x, &y)\<close>\<close>

definition Sscanf_lenient :: "go_lib \<Rightarrow> string \<Rightarrow> (float64 \<times> float64) option" where
  "Sscanf_lenient L str = do {
     (pointPrefix, r0) \<leftarrow> verb_s str;
     r1 \<leftarrow> match_literal ''('' r0;
     (x, r2) \<leftarrow> verb_f L r1;
     r3 \<leftarrow> match_space r2;
     (y, r4) \<leftarrow> verb_f L r3;
     r5 \<leftarrow> match_literal '')'' r4;
     Some (x, y)
   }"

section \<open>Point\<close>

record Point =
  X :: float64
  Y :: float64

definition WKBTypePoint :: uint32 where
  "WKBTypePoint = 1"

definition WKBTypeLineString :: uint32 where
  "WKBTypeLineString = 2"

definition decodePoint :: "ByteOrder \<Rightarrow> byteslice \<Rightarrow> Point option" where
  "decodePoint byteOrder data = do {
     dx \<leftarrow> reslice data 0 8;
     xbits \<leftarrow> Uint64 byteOrder dx;
     dy \<leftarrow> reslice data 8 16;
     ybits \<leftarrow> Uint64 byteOrder dy;
     Some \<lparr>X = Float64frombits xbits, Y = Float64frombits ybits\<rparr>
   }"

definition Point_buffer :: "Point \<Rightarrow> byte list option" where
  "Point_buffer p = do {
     d0 \<leftarrow> set_byte (replicate 25 0) 0 0;
     d1 \<leftarrow> set_byte d0 1 0;
     d2 \<leftarrow> set_byte d1 2 0;
     d3 \<leftarrow> set_byte d2 3 0;
     d4 \<leftarrow> set_byte d3 4 1;
     d5 \<leftarrow> PutUint32_at d4 5 9 WKBTypePoint;
     d6 \<leftarrow> PutUint64_at d5 9 17 (Float64bits (X p));
     PutUint64_at d6 17 25 (Float64bits (Y p))
   }"

definition Point_Value :: "Point \<Rightarrow> driver_value outcome" where
  "Point_Value p =
     (case Point_buffer p of
        None \<Rightarrow> Panic
      | Some data \<Rightarrow> Return (Bytes (fresh data)) None)"

definition byte_order_of :: "byte \<Rightarrow> ByteOrder option" where
  "byte_order_of b = (if b = 0 then Some BigEndian else if b = 1 then Some LittleEndian else None)"

definition Point_scan_text :: "go_lib \<Rightarrow> Point \<Rightarrow> string \<Rightarrow> Point outcome" where
  "Point_scan_text L p str =
     (case Sscanf_POINT L str of
        Some (x, y) \<Rightarrow> Return \<lparr>X = x, Y = y\<rparr> None
      | None \<Rightarrow>
          (case Sscanf_lenient L str of
             Some (x, y) \<Rightarrow> Return \<lparr>X = x, Y = y\<rparr> None
           | None \<Rightarrow> Return p (Some (PointParseFailed str))))"

definition Point_scan_wkb :: "Point \<Rightarrow> byteslice \<Rightarrow> Point outcome" where
  "Point_scan_wkb p data =
     (if slice_len data < 25 then Return p (Some (WKBTooShort (slice_len data)))
      else case byte_order_of (elems data ! 4) of
        None \<Rightarrow> Return p (Some (InvalidByteOrder (elems data ! 0)))
      | Some byteOrder \<Rightarrow>
          (case Option.bind (reslice data 5 9) (Uint32 byteOrder) of
             None \<Rightarrow> Panic
           | Some geometryType \<Rightarrow>
               if geometryType \<noteq> WKBTypePoint
               then Return p (Some (WrongGeometryType geometryType))
               else (case Option.bind (reslice data 9 25) (decodePoint byteOrder) of
                       None \<Rightarrow> Panic
                     | Some q \<Rightarrow> Return q None)))"

definition is_point_text :: "byteslice \<Rightarrow> bool" where
  "is_point_text data \<longleftrightarrow>
     slice_len data > 5 \<and>
     (elems data ! 0 = byte_of_char (CHR ''P'') \<or> elems data ! 0 = byte_of_char (CHR ''p''))"

definition Point_scan_data :: "go_lib \<Rightarrow> Point \<Rightarrow> byteslice \<Rightarrow> Point outcome" where
  "Point_scan_data L p data =
     (if is_point_text data then Point_scan_text L p (string_of_bytes data)
      else Point_scan_wkb p data)"

definition Point_Scan :: "go_lib \<Rightarrow> Point \<Rightarrow> driver_value \<Rightarrow> Point outcome" where
  "Point_Scan L p v =
     (case v of
        Null \<Rightarrow> Return p None
      | Str s \<Rightarrow> Point_scan_data L p (bytes_of_string L s)
      | Bytes b \<Rightarrow> Point_scan_data L p b
      | Other \<Rightarrow> Return p (Some UnsupportedType))"

section \<open>LineString\<close>

record LineString =
  Points :: "Point list"

text \<open>
  The loop of \<open>LineString.Scan\<close>: \<open>i\<close> and \<open>offset := 13 + (i * 16)\<close> are \<open>uint32\<close>, and
  each point is decoded from the 8-byte slice \<open>data[offset:offset+8]\<close>, whose
  capacity reaches the end of the buffer.
\<close>

primrec scan_points :: "ByteOrder \<Rightarrow> byteslice \<Rightarrow> nat \<Rightarrow> uint32 \<Rightarrow> Point list option" where
  "scan_points byteOrder data 0 i = Some []"
| "scan_points byteOrder data (Suc n) i = do {
     d \<leftarrow> reslice data (unat (13 + i * 16)) (unat (13 + i * 16 + 8));
     p \<leftarrow> decodePoint byteOrder d;
     ps \<leftarrow> scan_points byteOrder data n (i + 1);
     Some (p # ps)
   }"

definition LineString_scan_wkb :: "LineString \<Rightarrow> byteslice \<Rightarrow> LineString outcome" where
  "LineString_scan_wkb p data =
     (if slice_len data < 29 then Return p (Some (WKBTooShort (slice_len data)))
      else case byte_order_of (elems data ! 4) of
        None \<Rightarrow> Return p (Some (InvalidByteOrder (elems data ! 0)))
      | Some byteOrder \<Rightarrow>
          (case Option.bind (reslice data 5 9) (Uint32 byteOrder) of
             None \<Rightarrow> Panic
           | Some geometryType \<Rightarrow>
               if geometryType \<noteq> WKBTypeLineString
               then Return p (Some (WrongGeometryType geometryType))
               else (case Option.bind (reslice data 9 13) (Uint32 byteOrder) of
                       None \<Rightarrow> Panic
                     | Some numPoints \<Rightarrow>
                         (case scan_points byteOrder data (unat numPoints) 0 of
                            None \<Rightarrow> Panic
                          | Some points \<Rightarrow> Return \<lparr>Points = points\<rparr> None))))"

definition LineString_Scan :: "go_lib \<Rightarrow> LineString \<Rightarrow> driver_value \<Rightarrow> LineString outcome" where
  "LineString_Scan L p v =
     (case v of
        Null \<Rightarrow> Return p None
      | Str s \<Rightarrow> LineString_scan_wkb p (bytes_of_string L s)
      | Bytes b \<Rightarrow> LineString_scan_wkb p b
      | Other \<Rightarrow> Return p (Some UnsupportedType))"

fun put_points :: "Point list \<Rightarrow> nat \<Rightarrow> byte list \<Rightarrow> byte list option" where
  "put_points [] i data = Some data"
| "put_points (p # ps) i data = do {
     d1 \<leftarrow> PutUint64_at data (13 + i * 16) (13 + i * 16 + 8) (Float64bits (X p));
     d2 \<leftarrow> PutUint64_at d1 (13 + i * 16 + 8) (13 + i * 16 + 16) (Float64bits (Y p));
     put_points ps (i + 1) d2
   }"

definition LineString_buffer :: "LineString \<Rightarrow> byte list option" where
  "LineString_buffer p = do {
     d0 \<leftarrow> set_byte (replicate (13 + length (Points p) * 16) 0) 0 0;
     d1 \<leftarrow> set_byte d0 1 0;
     d2 \<leftarrow> set_byte d1 2 0;
     d3 \<leftarrow> set_byte d2 3 0;
     d4 \<leftarrow> set_byte d3 4 1;
     d5 \<leftarrow> PutUint32_at d4 5 9 WKBTypeLineString;
     d6 \<leftarrow> PutUint32_at d5 9 13 (of_nat (length (Points p)));
     put_points (Points p) 0 d6
   }"

definition LineString_Value :: "LineString \<Rightarrow> driver_value outcome" where
  "LineString_Value p =
     (case LineString_buffer p of
        None \<Rightarrow> Panic
      | Some data \<Rightarrow> Return (Bytes (fresh data)) None)"

section \<open>JSON and StringArray\<close>

text \<open>
  \<open>JSON[T]\<close> is generic in \<open>T\<close>; \<open>json.Marshal\<close> and \<open>json.Unmarshal\<close> at that type are
  parameters: \<open>marshal d\<close> is the text, or \<open>None\<close> for an error; \<open>unmarshal s d\<close> is the
  value that decoding the text \<open>s\<close> into \<open>d\<close> leaves there, and its error.
\<close>

record 'a JSON =
  Data :: 'a
  Valid :: bool

definition JSON_Value :: "go_lib \<Rightarrow> ('a \<Rightarrow> string option) \<Rightarrow> 'a JSON \<Rightarrow> driver_value outcome" where
  "JSON_Value L marshal p =
     (if \<not> JSON.Valid p then Return Null None
      else case marshal (JSON.Data p) of
        None \<Rightarrow> Return Null (Some JSONError)
      | Some s \<Rightarrow> Return (Bytes (bytes_of_string L s)) None)"

definition JSON_unmarshal ::
  "(string \<Rightarrow> 'a \<Rightarrow> 'a \<times> error option) \<Rightarrow> 'a JSON \<Rightarrow> string \<Rightarrow> 'a JSON outcome" where
  "JSON_unmarshal unmarshal p s =
     (case unmarshal s (JSON.Data p) of
        (d, Some err) \<Rightarrow> Return (p\<lparr>JSON.Data := d\<rparr>) (Some err)
      | (d, None) \<Rightarrow> Return (p\<lparr>JSON.Data := d, JSON.Valid := True\<rparr>) None)"

definition JSON_Scan ::
  "(string \<Rightarrow> 'a \<Rightarrow> 'a \<times> error option) \<Rightarrow> 'a JSON \<Rightarrow> driver_value \<Rightarrow> 'a JSON outcome" where
  "JSON_Scan unmarshal p v =
     (case v of
        Null \<Rightarrow> Return p None
      | Str s \<Rightarrow> JSON_unmarshal unmarshal p s
      | Bytes b \<Rightarrow> JSON_unmarshal unmarshal p (string_of_bytes b)
      | Other \<Rightarrow> Return p (Some UnsupportedType))"

text \<open>
  \<open>StringArray\<close> is \<open>[]string\<close>: \<open>None\<close> is the nil slice (the zero value, of length 0),
  \<open>Some xs\<close> a slice that is not nil. Package \<open>encoding/json\<close> documents what
  \<open>Value\<close> and \<open>Scan\<close> get from it. For \<open>json.Marshal\<close>: "Array and slice values encode
  as JSON arrays, except that \<open>[]byte\<close> encodes as a base64-encoded string, and a nil
  slice encodes as the null JSON value"; it has no error for a \<open>[]string\<close>. For
  \<open>json.Unmarshal\<close>: "The JSON null value unmarshals into an interface, map, pointer,
  or slice by setting that Go value to nil", and "to unmarshal an empty JSON array into
  a slice, Unmarshal replaces the slice with a new empty slice"; white space around the
  value is skipped.
\<close>

type_synonym StringArray = "string list option"

fun join :: "string list \<Rightarrow> string \<Rightarrow> string" where
  "join [] sep = []"
| "join [x] sep = x"
| "join (x # y # ys) sep = x @ sep @ join (y # ys) sep"

definition Marshal_strings :: "go_lib \<Rightarrow> StringArray \<Rightarrow> string" where
  "Marshal_strings L p =
     (case p of
        None \<Rightarrow> ''null''
      | Some xs \<Rightarrow> ''['' @ join (map (json_string L) xs) '','' @ '']'')"

definition json_space :: "char \<Rightarrow> bool" where
  "json_space c = (c \<in> {CHR '' '', CHR 0x09, CHR 0x0D, CHR 0x0A})"

definition json_trim :: "string \<Rightarrow> string" where
  "json_trim s = rev (dropWhile json_space (rev (dropWhile json_space s)))"

definition is_empty_array :: "string \<Rightarrow> bool" where
  "is_empty_array s \<longleftrightarrow>
     (case s of
        [] \<Rightarrow> False
      | c # cs \<Rightarrow> c = CHR ''['' \<and> dropWhile json_space cs = '']'')"

definition Unmarshal_strings :: "go_lib \<Rightarrow> string \<Rightarrow> StringArray \<Rightarrow> StringArray \<times> error option" where
  "Unmarshal_strings L s p =
     (if json_trim s = ''null'' then (None, None)
      else if is_empty_array (json_trim s) then (Some [], None)
      else json_decode_strings L s p)"

definition StringArray_Value :: "go_lib \<Rightarrow> StringArray \<Rightarrow> driver_value outcome" where
  "StringArray_Value L p = Return (Bytes (bytes_of_string L (Marshal_strings L p))) None"

definition StringArray_unmarshal :: "go_lib \<Rightarrow> StringArray \<Rightarrow> string \<Rightarrow> StringArray outcome" where
  "StringArray_unmarshal L p s =
     (case Unmarshal_strings L s p of (q, err) \<Rightarrow> Return q err)"

definition StringArray_Scan :: "go_lib \<Rightarrow> StringArray \<Rightarrow> driver_value \<Rightarrow> StringArray outcome" where
  "StringArray_Scan L p v =
     (case v of
        Null \<Rightarrow> Return p None
      | Str s \<Rightarrow> StringArray_unmarshal L p s
      | Bytes b \<Rightarrow> StringArray_unmarshal L p (string_of_bytes b)
      | Other \<Rightarrow> Return p (Some UnsupportedType))"

section \<open>Vector\<close>

text \<open>
  \<open>Vector[T]\<close> is generic in its element type, \<open>T\<close> ranging over \<open>float32\<close>, \<open>float64\<close>,
  \<open>int32\<close>, \<open>int64\<close> and the types defined on them (the constraint is
  \<open>~float32 | ~float64 | ~int32 | ~int64\<close>). The methods convert elements to
  \<open>any\<close> and switch on or assert their dynamic type, so an element carries its type:
  an \<open>elem\<close> is a value of one of the four types, by its bits (an \<open>int32\<close> or \<open>int64\<close> in
  two's complement), or a value of a defined type. \<open>Vector_Scan\<close> takes the type
  argument \<open>T\<close> of its receiver as a parameter.
\<close>

datatype etype = Float32 | Float64 | Int32 | Int64 | Defined etype

datatype elem = F32 float32 | F64 float64 | I32 uint32 | I64 uint64 | Def elem

fun type_of :: "elem \<Rightarrow> etype" where
  "type_of (F32 f) = Float32"
| "type_of (F64 f) = Float64"
| "type_of (I32 i) = Int32"
| "type_of (I64 i) = Int64"
| "type_of (Def e) = Defined (type_of e)"

record Vector =
  Data :: "elem list"
  Dimension :: int
  Valid :: bool

definition NewVector :: "elem list \<Rightarrow> Vector" where
  "NewVector data = \<lparr>Data = data, Dimension = int (length data), Valid = True\<rparr>"

text \<open>The type switch of \<open>Value\<close>: element size and element type tag.\<close>

fun element_code :: "etype \<Rightarrow> (nat \<times> byte) option" where
  "element_code Float32 = Some (4, 1)"
| "element_code Float64 = Some (8, 2)"
| "element_code Int32 = Some (4, 3)"
| "element_code Int64 = Some (8, 4)"
| "element_code (Defined t) = None"

text \<open>One round of the loop of \<open>Value\<close>; a type assertion that fails panics.\<close>

definition put_elem :: "byte \<Rightarrow> elem \<Rightarrow> nat \<Rightarrow> byte list \<Rightarrow> byte list option" where
  "put_elem elementType e offset data =
     (if elementType = 1 then
        (case e of F32 f \<Rightarrow> PutUint32_at data offset (offset + 4) (Float32bits f) | _ \<Rightarrow> None)
      else if elementType = 2 then
        (case e of F64 f \<Rightarrow> PutUint64_at data offset (offset + 8) (Float64bits f) | _ \<Rightarrow> None)
      else if elementType = 3 then
        (case e of I32 i \<Rightarrow> PutUint32_at data offset (offset + 4) i | _ \<Rightarrow> None)
      else if elementType = 4 then
        (case e of I64 i \<Rightarrow> PutUint64_at data offset (offset + 8) i | _ \<Rightarrow> None)
      else Some data)"

fun put_elems :: "byte \<Rightarrow> nat \<Rightarrow> elem list \<Rightarrow> nat \<Rightarrow> byte list \<Rightarrow> byte list option" where
  "put_elems elementType elementSize [] offset data = Some data"
| "put_elems elementType elementSize (e # es) offset data = do {
     d \<leftarrow> put_elem elementType e offset data;
     put_elems elementType elementSize es (offset + elementSize) d
   }"

definition Vector_buffer :: "nat \<Rightarrow> byte \<Rightarrow> elem list \<Rightarrow> byte list option" where
  "Vector_buffer elementSize elementType xs = do {
     d0 \<leftarrow> set_byte (replicate (1 + 4 + length xs * elementSize) 0) 0 elementType;
     d1 \<leftarrow> PutUint32_at d0 1 5 (of_nat (length xs));
     put_elems elementType elementSize xs 5 d1
   }"

definition Vector_Value :: "Vector \<Rightarrow> driver_value outcome" where
  "Vector_Value v =
     (if \<not> Valid v \<or> length (Data v) = 0 then Return Null None
      else case element_code (type_of (Data v ! 0)) of
        None \<Rightarrow> Return Null (Some UnsupportedElementType)
      | Some (elementSize, elementType) \<Rightarrow>
          (case Vector_buffer elementSize elementType (Data v) of
             None \<Rightarrow> Panic
           | Some data \<Rightarrow> Return (Bytes (fresh data)) None))"

text \<open>
  One round of the loop of \<open>Scan\<close>: the element is decoded as the tag says, then
  asserted to be a \<open>T\<close> (\<open>elem.(T)\<close>), which panics when its type is another.
\<close>

definition decode_elem :: "byte \<Rightarrow> byteslice \<Rightarrow> nat \<Rightarrow> elem option" where
  "decode_elem elementType data offset =
     (if elementType = 1 then
        map_option (\<lambda>bits. F32 (Float32frombits bits))
          (Option.bind (reslice data offset (offset + 4)) (Uint32 LittleEndian))
      else if elementType = 2 then
        map_option (\<lambda>bits. F64 (Float64frombits bits))
          (Option.bind (reslice data offset (offset + 8)) (Uint64 LittleEndian))
      else if elementType = 3 then
        map_option I32 (Option.bind (reslice data offset (offset + 4)) (Uint32 LittleEndian))
      else if elementType = 4 then
        map_option I64 (Option.bind (reslice data offset (offset + 8)) (Uint64 LittleEndian))
      else None)"

definition assert_type :: "etype \<Rightarrow> elem \<Rightarrow> elem option" where
  "assert_type T e = (if type_of e = T then Some e else None)"

primrec scan_elems :: "etype \<Rightarrow> byte \<Rightarrow> nat \<Rightarrow> byteslice \<Rightarrow> nat \<Rightarrow> nat \<Rightarrow> elem list option" where
  "scan_elems T elementType elementSize data 0 offset = Some []"
| "scan_elems T elementType elementSize data (Suc n) offset = do {
     e \<leftarrow> decode_elem elementType data offset;
     x \<leftarrow> assert_type T e;
     xs \<leftarrow> scan_elems T elementType elementSize data n (offset + elementSize);
     Some (x # xs)
   }"

definition element_size :: "byte \<Rightarrow> nat option" where
  "element_size elementType =
     (if elementType = 1 \<or> elementType = 3 then Some 4
      else if elementType = 2 \<or> elementType = 4 then Some 8
      else None)"

definition Vector_scan_binary :: "etype \<Rightarrow> Vector \<Rightarrow> byteslice \<Rightarrow> Vector outcome" where
  "Vector_scan_binary T v data =
     (if slice_len data < 5 then Return v (Some (VectorTooShort (slice_len data)))
      else case Option.bind (reslice data 1 5) (Uint32 LittleEndian) of
        None \<Rightarrow> Panic
      | Some n \<Rightarrow>
          (let elementType = elems data ! 0; dimension = unat n in
           case element_size elementType of
             None \<Rightarrow> Return v (Some (UnknownElementType elementType))
           | Some elementSize \<Rightarrow>
               (let expectedLen = 5 + dimension * elementSize in
                if slice_len data < expectedLen
                then Return v (Some (VectorTooShortForDimension dimension (slice_len data) expectedLen))
                else case scan_elems T elementType elementSize data dimension 5 of
                  None \<Rightarrow> Panic
                | Some elements \<Rightarrow>
                    Return \<lparr>Data = elements, Dimension = int dimension, Valid = True\<rparr> None)))"

text \<open>
  \<open>scanFromString\<close>, on ASCII text: \<open>strings.TrimSpace\<close> removes the leading and
  trailing white space, \<open>strings.Split\<close> cuts at every separator.
\<close>

definition TrimSpace :: "string \<Rightarrow> string" where
  "TrimSpace s = rev (dropWhile isSpace (rev (dropWhile isSpace s)))"

definition HasPrefix :: "string \<Rightarrow> string \<Rightarrow> bool" where
  "HasPrefix s pre \<longleftrightarrow> length pre \<le> length s \<and> take (length pre) s = pre"

definition HasSuffix :: "string \<Rightarrow> string \<Rightarrow> bool" where
  "HasSuffix s suf \<longleftrightarrow> length suf \<le> length s \<and> drop (length s - length suf) s = suf"

fun split_at :: "char \<Rightarrow> string \<Rightarrow> string list" where
  "split_at sep [] = [[]]"
| "split_at sep (c # cs) =
     (if c = sep then [] # split_at sep cs
      else case split_at sep cs of
        [] \<Rightarrow> [[c]]
      | w # ws \<Rightarrow> (c # w) # ws)"

definition parse_elem :: "go_lib \<Rightarrow> etype \<Rightarrow> string \<Rightarrow> (elem option) option" where
  "parse_elem L T part =
     (case T of
        Float32 \<Rightarrow> Some (map_option (\<lambda>f. F32 (float32_of_float64 L f)) (ParseFloat L part 32))
      | Float64 \<Rightarrow> Some (map_option F64 (ParseFloat L part 64))
      | Int32 \<Rightarrow> Some (map_option (\<lambda>i. I32 (ucast i)) (ParseInt L part 10 32))
      | Int64 \<Rightarrow> Some (map_option I64 (ParseInt L part 10 64))
      | Defined t \<Rightarrow> None)"

fun parse_parts :: "go_lib \<Rightarrow> etype \<Rightarrow> string list \<Rightarrow> error + elem list" where
  "parse_parts L T [] = Inr []"
| "parse_parts L T (part # parts) =
     (case parse_elem L T (TrimSpace part) of
        None \<Rightarrow> Inl UnsupportedElementType
      | Some None \<Rightarrow> Inl (ElementParseFailed (TrimSpace part))
      | Some (Some e) \<Rightarrow>
          (case parse_parts L T parts of
             Inl err \<Rightarrow> Inl err
           | Inr es \<Rightarrow> Inr (e # es)))"

definition scanFromString :: "go_lib \<Rightarrow> etype \<Rightarrow> Vector \<Rightarrow> string \<Rightarrow> Vector outcome" where
  "scanFromString L T v s0 =
     (let s = TrimSpace s0 in
      if \<not> HasPrefix s ''['' \<or> \<not> HasSuffix s '']'' then Return v (Some (InvalidVectorFormat s))
      else if length s < 2 then Panic
      else let s = TrimSpace (take (length s - 2) (drop 1 s)) in
        if s = [] then Return \<lparr>Data = [], Dimension = 0, Valid = True\<rparr> None
        else case parse_parts L T (split_at (CHR '','') s) of
          Inl err \<Rightarrow> Return v (Some err)
        | Inr elements \<Rightarrow>
            Return \<lparr>Data = elements, Dimension = int (length elements), Valid = True\<rparr> None)"

definition Vector_Scan :: "go_lib \<Rightarrow> etype \<Rightarrow> Vector \<Rightarrow> driver_value \<Rightarrow> Vector outcome" where
  "Vector_Scan L T v val =
     (case val of
        Null \<Rightarrow> Return (v\<lparr>Valid := False\<rparr>) None
      | Str s \<Rightarrow> scanFromString L T v s
      | Bytes data \<Rightarrow> Vector_scan_binary T v data
      | Other \<Rightarrow> Return v (Some UnsupportedType))"

section \<open>Wire layouts and the inputs of the examples\<close>

text \<open>The bytes of the wire formats, as the encoders lay them out.\<close>

definition point_bytes :: "Point \<Rightarrow> byte list" where
  "point_bytes p = le64 (X p) @ le64 (Y p)"

definition Point_bytes :: "Point \<Rightarrow> byte list" where
  "Point_bytes p = [0, 0, 0, 0, 1] @ le32 1 @ point_bytes p"

definition LineString_bytes :: "LineString \<Rightarrow> byte list" where
  "LineString_bytes p =
     [0, 0, 0, 0, 1] @ le32 2 @ le32 (of_nat (length (Points p))) @ concat (map point_bytes (Points p))"

fun elem_bytes :: "elem \<Rightarrow> byte list" where
  "elem_bytes (F32 f) = le32 f"
| "elem_bytes (F64 f) = le64 f"
| "elem_bytes (I32 i) = le32 i"
| "elem_bytes (I64 i) = le64 i"
| "elem_bytes (Def e) = []"

definition Vector_bytes :: "byte \<Rightarrow> elem list \<Rightarrow> byte list" where
  "Vector_bytes elementType xs = elementType # le32 (of_nat (length xs)) @ concat (map elem_bytes xs)"

text \<open>
  Go's \<open>==\<close> on \<open>float64\<close> is the IEEE-754 comparison: a NaN (exponent bits all one,
  fraction not zero) equals nothing, itself included, and the two zeros are equal.
\<close>

definition isNaN64 :: "float64 \<Rightarrow> bool" where
  "isNaN64 f \<longleftrightarrow>
     f AND 0x7FF0000000000000 = 0x7FF0000000000000 \<and> f AND 0x000FFFFFFFFFFFFF \<noteq> 0"

definition float64_eq :: "float64 \<Rightarrow> float64 \<Rightarrow> bool" where
  "float64_eq a b \<longleftrightarrow>
     \<not> isNaN64 a \<and> \<not> isNaN64 b \<and>
     (a = b \<or> (a AND 0x7FFFFFFFFFFFFFFF = 0 \<and> b AND 0x7FFFFFFFFFFFFFFF = 0))"

text \<open>The real number that a finite \<open>float64\<close> stands for.\<close>

definition float64_real :: "float64 \<Rightarrow> real" where
  "float64_real f =
     (let e = unat (drop_bit 52 f AND 0x7FF);
          m = unat (f AND 0x000FFFFFFFFFFFFF);
          a = (if e = 0 then real m / 2 ^ 1074
               else if e < 1075 then real (2 ^ 52 + m) / 2 ^ (1075 - e)
               else real (2 ^ 52 + m) * 2 ^ (e - 1075))
      in if bit f 63 then - a else a)"

text \<open>
  The coordinates of the examples: the \<open>float64\<close> nearest to \<open>-73.9654\<close>, \<open>40.7829\<close>,
  \<open>-73.9632\<close>, \<open>40.7845\<close>, \<open>-73.9610\<close> and \<open>40.7861\<close>.
\<close>

definition lon1 :: float64 where "lon1 = 0xC0527DC91D14E3BD"
definition lat1 :: float64 where "lat1 = 0x40446436113404EA"
definition lon2 :: float64 where "lon2 = 0xC0527DA5119CE076"
definition lat2 :: float64 where "lat2 = 0x4044646A7EF9DB23"
definition lon3 :: float64 where "lon3 = 0xC0527D810624DD2F"
definition lat3 :: float64 where "lat3 = 0x4044649EECBFB15B"

definition example_point :: Point where
  "example_point = \<lparr>X = lon1, Y = lat1\<rparr>"

definition example_path :: LineString where
  "example_path = \<lparr>Points = [\<lparr>X = lon1, Y = lat1\<rparr>, \<lparr>X = lon2, Y = lat2\<rparr>, \<lparr>X = lon3, Y = lat3\<rparr>]\<rparr>"

text \<open>A point whose \<open>X\<close> is a NaN, and its encoding.\<close>

definition nan_point :: Point where
  "nan_point = \<lparr>X = 0x7FF8000000000000, Y = 0\<rparr>"

definition nan_point_bytes :: "byte list" where
  "nan_point_bytes =
     [0, 0, 0, 0, 1, 1, 0, 0, 0, 0, 0, 0, 0, 0, 0, 0xF8, 0x7F, 0, 0, 0, 0, 0, 0, 0, 0]"

text \<open>The zero values that \<open>var p Point\<close>, \<open>var l LineString\<close> and \<open>var v Vector[T]\<close> declare.\<close>

definition Point_zero :: Point where
  "Point_zero = \<lparr>X = 0, Y = 0\<rparr>"

definition LineString_zero :: LineString where
  "LineString_zero = \<lparr>Points = []\<rparr>"

definition Vector_zero :: Vector where
  "Vector_zero = \<lparr>Data = [], Dimension = 0, Valid = False\<rparr>"

text \<open>
  A LineString buffer of 29 bytes that declares two points and holds one, and a Vector
  buffer of one \<open>float64\<close> (tag 2).
\<close>

definition short_path :: "byte list" where
  "short_path =
     [0, 0, 0, 0, 1, 2, 0, 0, 0, 2, 0, 0, 0,
      0, 0, 0, 0, 0, 0, 0, 0, 0, 0, 0, 0, 0, 0, 0, 0]"

definition double_vector :: "byte list" where
  "double_vector = [2, 1, 0, 0, 0, 0, 0, 0, 0, 0, 0, 0xF0, 0x3F]"

text \<open>A vector of \<open>2^32\<close> elements of type \<open>int32\<close>, and the vector \<open>[1.0, 2.5]\<close> of \<open>float32\<close>.\<close>

definition huge_vector :: Vector where
  "huge_vector = \<lparr>Data = replicate (2 ^ 32) (I32 0), Dimension = 2 ^ 32, Valid = True\<rparr>"

definition small_vector :: Vector where
  "small_vector = \<lparr>Data = [F32 0x3F800000, F32 0x40200000], Dimension = 2, Valid = True\<rparr>"

section \<open>Byte order lemmas\<close>

lemma bit_piece:
  "bit (push_bit k (ucast (ucast (drop_bit k (v :: 'a::len word)) :: 8 word)) :: 'a word) n
     \<longleftrightarrow> k \<le> n \<and> n < k + 8 \<and> bit v n"
  by (auto simp: bit_simps le_add_diff_inverse dest: bit_imp_le_length)

lemma bit_piece0:
  "bit (ucast (ucast (v :: 'a::len word) :: 8 word) :: 'a word) n \<longleftrightarrow> n < 8 \<and> bit v n"
  by (auto simp: bit_simps dest: bit_imp_le_length)

lemma u32_le_le32 [simp]: "u32_le (le32 v) = v"
  unfolding u32_le_def le32_def
  apply (rule bit_word_eqI)
  apply (simp add: bit_or_iff bit_piece bit_piece0)
  apply arith
  done

lemma u64_le_le64 [simp]: "u64_le (le64 v) = v"
  unfolding u64_le_def le64_def
  apply (rule bit_word_eqI)
  apply (simp add: bit_or_iff bit_piece bit_piece0)
  apply arith
  done

lemma length_le32 [simp]: "length (le32 v) = 4"
  by (simp add: le32_def)

lemma length_le64 [simp]: "length (le64 v) = 8"
  by (simp add: le64_def)

lemma Float64bits_id [simp]: "Float64bits f = f" "Float64frombits f = f"
  by (simp_all add: Float64bits_def Float64frombits_def)

lemma Float32bits_id [simp]: "Float32bits f = f" "Float32frombits f = f"
  by (simp_all add: Float32bits_def Float32frombits_def)

section \<open>The coordinates of the examples\<close>

text \<open>
  Each constant is within half a unit in the last place of its decimal, so it is the
  \<open>float64\<close> that the Go compiler and \<open>strconv.ParseFloat\<close> give for that decimal.
\<close>

lemma float64_real_normal:
  assumes "unat (drop_bit 52 f AND 0x7FF) = e" and "0 < e" and "e < 1075"
  shows "float64_real f =
    (if bit f 63 then - (real (2 ^ 52 + unat (f AND 0x000FFFFFFFFFFFFF)) / 2 ^ (1075 - e))
     else real (2 ^ 52 + unat (f AND 0x000FFFFFFFFFFFFF)) / 2 ^ (1075 - e))"
  using assms(2,3) unfolding float64_real_def Let_def assms(1) by simp

lemma lon1_real: "\<bar>float64_real lon1 - (- 73.9654)\<bar> \<le> 1 / 2 ^ 47"
proof -
  have e: "unat (drop_bit 52 lon1 AND 0x7FF) = 1029"
    by (simp add: lon1_def)
  have m: "unat (lon1 AND 0x000FFFFFFFFFFFFF) = 701252683228093"
    by (simp add: lon1_def)
  have s: "bit lon1 63"
    by (simp add: lon1_def bit_iff_odd_drop_bit)
  have "float64_real lon1 = - (real (2 ^ 52 + 701252683228093) / 2 ^ (1075 - 1029))"
    using float64_real_normal[OF e] s by (simp only: m if_True)
  then show ?thesis
    by simp
qed

lemma lat1_real: "\<bar>float64_real lat1 - 40.7829\<bar> \<le> 1 / 2 ^ 48"
proof -
  have e: "unat (drop_bit 52 lat1 AND 0x7FF) = 1028"
    by (simp add: lat1_def)
  have m: "unat (lat1 AND 0x000FFFFFFFFFFFFF) = 1236083286476010"
    by (simp add: lat1_def)
  have s: "\<not> bit lat1 63"
    by (simp add: lat1_def bit_iff_odd_drop_bit)
  have "float64_real lat1 = real (2 ^ 52 + 1236083286476010) / 2 ^ (1075 - 1028)"
    using float64_real_normal[OF e] s by (simp only: m if_False)
  then show ?thesis
    by simp
qed

lemma lon2_real: "\<bar>float64_real lon2 - (- 73.9632)\<bar> \<le> 1 / 2 ^ 47"
proof -
  have e: "unat (drop_bit 52 lon2 AND 0x7FF) = 1029"
    by (simp add: lon2_def)
  have m: "unat (lon2 AND 0x000FFFFFFFFFFFFF) = 701097871990902"
    by (simp add: lon2_def)
  have s: "bit lon2 63"
    by (simp add: lon2_def bit_iff_odd_drop_bit)
  have "float64_real lon2 = - (real (2 ^ 52 + 701097871990902) / 2 ^ (1075 - 1029))"
    using float64_real_normal[OF e] s by (simp only: m if_True)
  then show ?thesis
    by simp
qed

lemma lat2_real: "\<bar>float64_real lat2 - 40.7845\<bar> \<le> 1 / 2 ^ 48"
proof -
  have e: "unat (drop_bit 52 lat2 AND 0x7FF) = 1028"
    by (simp add: lat2_def)
  have m: "unat (lat2 AND 0x000FFFFFFFFFFFFF) = 1236308466457379"
    by (simp add: lat2_def)
  have s: "\<not> bit lat2 63"
    by (simp add: lat2_def bit_iff_odd_drop_bit)
  have "float64_real lat2 = real (2 ^ 52 + 1236308466457379) / 2 ^ (1075 - 1028)"
    using float64_real_normal[OF e] s by (simp only: m if_False)
  then show ?thesis
    by simp
qed

lemma lon3_real: "\<bar>float64_real lon3 - (- 73.9610)\<bar> \<le> 1 / 2 ^ 47"
proof -
  have e: "unat (drop_bit 52 lon3 AND 0x7FF) = 1029"
    by (simp add: lon3_def)
  have m: "unat (lon3 AND 0x000FFFFFFFFFFFFF) = 700943060753711"
    by (simp add: lon3_def)
  have s: "bit lon3 63"
    by (simp add: lon3_def bit_iff_odd_drop_bit)
  have "float64_real lon3 = - (real (2 ^ 52 + 700943060753711) / 2 ^ (1075 - 1029))"
    using float64_real_normal[OF e] s by (simp only: m if_True)
  then show ?thesis
    by simp
qed

lemma lat3_real: "\<bar>float64_real lat3 - 40.7861\<bar> \<le> 1 / 2 ^ 48"
proof -
  have e: "unat (drop_bit 52 lat3 AND 0x7FF) = 1028"
    by (simp add: lat3_def)
  have m: "unat (lat3 AND 0x000FFFFFFFFFFFFF) = 1236533646438747"
    by (simp add: lat3_def)
  have s: "\<not> bit lat3 63"
    by (simp add: lat3_def bit_iff_odd_drop_bit)
  have "float64_real lat3 = real (2 ^ 52 + 1236533646438747) / 2 ^ (1075 - 1028)"
    using float64_real_normal[OF e] s by (simp only: m if_False)
  then show ?thesis
    by simp
qed

section \<open>Bytes and characters\<close>

lemma char_of_byte_of_char [simp]: "char_of_byte (byte_of_char c) = c"
proof -
  have "(of_char c :: byte) = of_nat (of_char c)"
    by (simp add: of_nat_of_char)
  then have "unat (of_char c :: byte) = of_char c mod 256"
    by (simp add: unat_of_nat)
  then have "unat (of_char c :: byte) = of_char c"
    by simp
  then show ?thesis
    by (simp add: char_of_byte_def byte_of_char_def)
qed

lemma byte_of_char_eq_iff [simp]: "byte_of_char a = byte_of_char b \<longleftrightarrow> a = b"
  by (metis char_of_byte_of_char)

lemma string_of_bytes_of_string [simp]: "string_of_bytes (bytes_of_string L s) = s"
  by (simp add: string_of_bytes_def bytes_of_string_def comp_def)

lemma slice_len_bytes_of_string [simp]: "slice_len (bytes_of_string L s) = length s"
  by (simp add: slice_len_def bytes_of_string_def)

section \<open>Writing and reading at an offset\<close>

lemma PutUint64_at_append:
  "8 \<le> length zs \<Longrightarrow> lo = length pre \<Longrightarrow> hi = lo + 8 \<Longrightarrow>
   PutUint64_at (pre @ zs) lo hi v = Some (pre @ le64 v @ drop 8 zs)"
  by (simp add: PutUint64_at_def)

lemma PutUint32_at_append:
  "4 \<le> length zs \<Longrightarrow> lo = length pre \<Longrightarrow> hi = lo + 4 \<Longrightarrow>
   PutUint32_at (pre @ zs) lo hi v = Some (pre @ le32 v @ drop 4 zs)"
  by (simp add: PutUint32_at_def)

lemma reslice_middle:
  "lo = length pre \<Longrightarrow> hi = lo + length a \<Longrightarrow>
   reslice \<lparr>elems = pre @ a @ r, spare = sp\<rparr> lo hi = Some \<lparr>elems = a, spare = r @ sp\<rparr>"
  by (simp add: reslice_def slice_cap_def)

section \<open>The scanner: the lenient format never matches\<close>

text \<open>
  After \<open>%s\<close> the input is at its end or at a space, so the \<open>(\<close> that follows \<open>%s\<close>
  in the format \<open>%s(%f %f)\<close> cannot match: the second \<open>Sscanf\<close> of \<open>Point.Scan\<close>
  fails on every input.
\<close>

lemma verb_s_rest:
  assumes "verb_s inp = Some (tok, r)"
  shows "r = [] \<or> isSpace (hd r)"
proof -
  from assms obtain w where r: "r = dropWhile (\<lambda>d. \<not> isSpace d) w"
    unfolding verb_s_def
    by (cases "dropWhile (\<lambda>d. isSpace d \<and> d \<noteq> CHR 0x0A) inp")
       (auto simp del: dropWhile.simps takeWhile.simps split: if_splits)
  show ?thesis
  proof (cases r)
    case Nil
    then show ?thesis by simp
  next
    case (Cons a as)
    then have "\<not> (\<not> isSpace (hd r))"
      using hd_dropWhile[of "\<lambda>d. \<not> isSpace d" w] r by (metis list.distinct(1))
    then show ?thesis by simp
  qed
qed

lemma Sscanf_lenient_fails: "Sscanf_lenient L str = None"
proof (cases "verb_s str")
  case None
  then show ?thesis by (simp add: Sscanf_lenient_def)
next
  case (Some a)
  obtain tok r where a: "a = (tok, r)" by (cases a)
  have "r = [] \<or> isSpace (hd r)"
    using verb_s_rest Some a by blast
  then have "match_literal ''('' r = None"
    by (cases r) (auto simp: isSpace_def)
  then show ?thesis
    using Some a by (simp add: Sscanf_lenient_def)
qed

lemma Point_scan_text_primary:
  "Point_scan_text L p str =
     (case Sscanf_POINT L str of
        Some (x, y) \<Rightarrow> Return \<lparr>X = x, Y = y\<rparr> None
      | None \<Rightarrow> Return p (Some (PointParseFailed str)))"
  by (simp add: Point_scan_text_def Sscanf_lenient_fails split: option.split)

section \<open>Point: encoding and decoding\<close>

lemma Point_buffer_eq: "Point_buffer p = Some (Point_bytes p)"
  by (simp add: Point_buffer_def set_byte_def PutUint32_at_def PutUint64_at_def
      WKBTypePoint_def Point_bytes_def point_bytes_def eval_nat_numeral)

lemma Point_Value_eq: "Point_Value p = Return (Bytes (fresh (Point_bytes p))) None"
  by (simp add: Point_Value_def Point_buffer_eq)

lemma length_point_bytes [simp]: "length (point_bytes p) = 16"
  by (simp add: point_bytes_def)

lemma length_Point_bytes [simp]: "length (Point_bytes p) = 25"
  by (simp add: Point_bytes_def)

lemma Point_Scan_bytes: "Point_Scan L q (Bytes (fresh (Point_bytes p))) = Return p None"
proof -
  have "Point_Scan L q (Bytes (fresh ([0, 0, 0, 0, 1] @ le32 1 @ le64 (X p) @ le64 (Y p))))
      = Return \<lparr>X = X p, Y = Y p\<rparr> None"
    apply (simp add: Point_Scan_def Point_scan_data_def is_point_text_def byte_of_char_def
        fresh_def slice_len_def)
    apply (simp add: Point_scan_wkb_def slice_len_def byte_order_of_def reslice_def slice_cap_def
        Uint32_def WKBTypePoint_def decodePoint_def Uint64_def)
    done
  then show ?thesis
    by (simp add: Point_bytes_def point_bytes_def)
qed

lemma Point_Scan_short:
  assumes "slice_len data < 25" and "\<not> is_point_text data"
  shows "Point_Scan L p (Bytes data) = Return p (Some (WKBTooShort (slice_len data)))"
  using assms by (simp add: Point_Scan_def Point_scan_data_def Point_scan_wkb_def)

lemma not_point_text:
  "elems data ! 0 \<noteq> byte_of_char (CHR ''P'') \<Longrightarrow> elems data ! 0 \<noteq> byte_of_char (CHR ''p'') \<Longrightarrow>
   \<not> is_point_text data"
  by (simp add: is_point_text_def)

lemma Point_Scan_wkb_little:
  assumes "length srid = 4" and "length xb = 8" and "length yb = 8"
    and "\<not> is_point_text \<lparr>elems = srid @ [1] @ [1, 0, 0, 0] @ xb @ yb, spare = sp\<rparr>"
  shows "Point_Scan L p (Bytes \<lparr>elems = srid @ [1] @ [1, 0, 0, 0] @ xb @ yb, spare = sp\<rparr>)
     = Return \<lparr>X = u64_le xb, Y = u64_le yb\<rparr> None"
proof -
  let ?d = "\<lparr>elems = srid @ [1] @ [1, 0, 0, 0] @ xb @ yb, spare = sp\<rparr>"
  have len: "\<not> slice_len ?d < 25"
    using assms by (simp add: slice_len_def)
  have bo: "byte_order_of (elems ?d ! 4) = Some LittleEndian"
    using assms(1) by (simp add: byte_order_of_def nth_append)
  have gt: "Option.bind (reslice ?d 5 9) (Uint32 LittleEndian) = Some WKBTypePoint"
    using assms by (simp add: reslice_def slice_cap_def Uint32_def slice_len_def u32_le_def
        WKBTypePoint_def)
  have r: "reslice ?d 9 25 = Some \<lparr>elems = xb @ yb, spare = sp\<rparr>"
    using assms reslice_middle[of 9 "srid @ [1] @ [1, 0, 0, 0]" 25 "xb @ yb" "[]" sp] by simp
  have dp: "decodePoint LittleEndian \<lparr>elems = xb @ yb, spare = sp\<rparr>
      = Some \<lparr>X = u64_le xb, Y = u64_le yb\<rparr>"
    using assms by (simp add: decodePoint_def reslice_def slice_cap_def Uint64_def slice_len_def)
  show ?thesis
    using assms(4)
    by (simp only: Point_Scan_def Point_scan_data_def Point_scan_wkb_def driver_value.case
        len bo gt r dp if_False option.case Option.bind.simps simp_thms)
qed

lemma Point_Scan_wkb_big:
  assumes "length srid = 4" and "length xb = 8" and "length yb = 8"
    and "\<not> is_point_text \<lparr>elems = srid @ [0] @ [0, 0, 0, 1] @ xb @ yb, spare = sp\<rparr>"
  shows "Point_Scan L p (Bytes \<lparr>elems = srid @ [0] @ [0, 0, 0, 1] @ xb @ yb, spare = sp\<rparr>)
     = Return \<lparr>X = u64_be xb, Y = u64_be yb\<rparr> None"
proof -
  let ?d = "\<lparr>elems = srid @ [0] @ [0, 0, 0, 1] @ xb @ yb, spare = sp\<rparr>"
  have len: "\<not> slice_len ?d < 25"
    using assms by (simp add: slice_len_def)
  have bo: "byte_order_of (elems ?d ! 4) = Some BigEndian"
    using assms(1) by (simp add: byte_order_of_def nth_append)
  have gt: "Option.bind (reslice ?d 5 9) (Uint32 BigEndian) = Some WKBTypePoint"
    using assms by (simp add: reslice_def slice_cap_def Uint32_def slice_len_def u32_be_def
        WKBTypePoint_def)
  have r: "reslice ?d 9 25 = Some \<lparr>elems = xb @ yb, spare = sp\<rparr>"
    using assms reslice_middle[of 9 "srid @ [0] @ [0, 0, 0, 1]" 25 "xb @ yb" "[]" sp] by simp
  have dp: "decodePoint BigEndian \<lparr>elems = xb @ yb, spare = sp\<rparr>
      = Some \<lparr>X = u64_be xb, Y = u64_be yb\<rparr>"
    using assms by (simp add: decodePoint_def reslice_def slice_cap_def Uint64_def slice_len_def)
  show ?thesis
    using assms(4)
    by (simp only: Point_Scan_def Point_scan_data_def Point_scan_wkb_def driver_value.case
        len bo gt r dp if_False option.case Option.bind.simps simp_thms)
qed

section \<open>Claims about Point\<close>

text \<open>
  C9. \<open>Point.Scan\<close> of a binary input (its first byte is neither \<open>P\<close> nor \<open>p\<close>) of
  exactly 24 bytes returns the error "WKB data too short: 24 bytes" and leaves the
  receiver as it was. A binary input of exactly 25 bytes that is well formed (any four
  SRID bytes, then the byte order flag 1 with the type tag \<open>01 00 00 00\<close>, or the flag 0
  with the tag \<open>00 00 00 01\<close>, then two groups of eight bytes; any capacity) is decoded
  with no error: \<open>X\<close> and \<open>Y\<close> are the two groups read in the byte order of the flag.
\<close>

theorem Point_Scan_truncation_boundary:
  "(slice_len data = 24 \<and> elems data ! 0 \<noteq> byte_of_char (CHR ''P'') \<and>
      elems data ! 0 \<noteq> byte_of_char (CHR ''p'')
      \<longrightarrow> Point_Scan L p (Bytes data) = Return p (Some (WKBTooShort 24))) \<and>
   (length srid = 4 \<and> length xb = 8 \<and> length yb = 8 \<and>
      srid ! 0 \<noteq> byte_of_char (CHR ''P'') \<and> srid ! 0 \<noteq> byte_of_char (CHR ''p'')
      \<longrightarrow> Point_Scan L p (Bytes \<lparr>elems = srid @ [1] @ [1, 0, 0, 0] @ xb @ yb, spare = sp\<rparr>)
            = Return \<lparr>X = u64_le xb, Y = u64_le yb\<rparr> None \<and>
          Point_Scan L p (Bytes \<lparr>elems = srid @ [0] @ [0, 0, 0, 1] @ xb @ yb, spare = sp\<rparr>)
            = Return \<lparr>X = u64_be xb, Y = u64_be yb\<rparr> None)"
proof (intro conjI impI)
  assume a: "slice_len data = 24 \<and> elems data ! 0 \<noteq> byte_of_char (CHR ''P'') \<and>
      elems data ! 0 \<noteq> byte_of_char (CHR ''p'')"
  then have "\<not> is_point_text data"
    by (simp add: not_point_text)
  then show "Point_Scan L p (Bytes data) = Return p (Some (WKBTooShort 24))"
    using a Point_Scan_short[of data L p] by simp
next
  assume a: "length srid = 4 \<and> length xb = 8 \<and> length yb = 8 \<and>
      srid ! 0 \<noteq> byte_of_char (CHR ''P'') \<and> srid ! 0 \<noteq> byte_of_char (CHR ''p'')"
  then have "\<not> is_point_text \<lparr>elems = srid @ [1] @ [1, 0, 0, 0] @ xb @ yb, spare = sp\<rparr>"
    by (intro not_point_text) (simp_all add: nth_append)
  then show "Point_Scan L p (Bytes \<lparr>elems = srid @ [1] @ [1, 0, 0, 0] @ xb @ yb, spare = sp\<rparr>)
            = Return \<lparr>X = u64_le xb, Y = u64_le yb\<rparr> None"
    using a by (intro Point_Scan_wkb_little) simp_all
next
  assume a: "length srid = 4 \<and> length xb = 8 \<and> length yb = 8 \<and>
      srid ! 0 \<noteq> byte_of_char (CHR ''P'') \<and> srid ! 0 \<noteq> byte_of_char (CHR ''p'')"
  then have "\<not> is_point_text \<lparr>elems = srid @ [0] @ [0, 0, 0, 1] @ xb @ yb, spare = sp\<rparr>"
    by (intro not_point_text) (simp_all add: nth_append)
  then show "Point_Scan L p (Bytes \<lparr>elems = srid @ [0] @ [0, 0, 0, 1] @ xb @ yb, spare = sp\<rparr>)
            = Return \<lparr>X = u64_be xb, Y = u64_be yb\<rparr> None"
    using a by (intro Point_Scan_wkb_big) simp_all
qed

theorem Point_Scan_truncation_boundary_witness:
  "\<forall>L. Point_Scan L Point_zero (Bytes (fresh (replicate 24 0)))
          = Return Point_zero (Some (WKBTooShort 24)) \<and>
        Point_Scan L Point_zero
          (Bytes \<lparr>elems = [0, 0, 0, 0] @ [1] @ [1, 0, 0, 0] @ le64 lon1 @ le64 lat1, spare = []\<rparr>)
          = Return example_point None \<and>
        Point_Scan L Point_zero
          (Bytes \<lparr>elems = [0, 0, 0, 0] @ [0] @ [0, 0, 0, 1] @ rev (le64 lon1) @ rev (le64 lat1),
                  spare = []\<rparr>)
          = Return example_point None"
proof
  fix L
  have be: "u64_be (rev (le64 v)) = v" for v
    using u64_le_le64[of v] by (simp add: u64_be_def u64_le_def le64_def)
  show "Point_Scan L Point_zero (Bytes (fresh (replicate 24 0)))
          = Return Point_zero (Some (WKBTooShort 24)) \<and>
        Point_Scan L Point_zero
          (Bytes \<lparr>elems = [0, 0, 0, 0] @ [1] @ [1, 0, 0, 0] @ le64 lon1 @ le64 lat1, spare = []\<rparr>)
          = Return example_point None \<and>
        Point_Scan L Point_zero
          (Bytes \<lparr>elems = [0, 0, 0, 0] @ [0] @ [0, 0, 0, 1] @ rev (le64 lon1) @ rev (le64 lat1),
                  spare = []\<rparr>)
          = Return example_point None"
    using Point_Scan_truncation_boundary[of "fresh (replicate 24 0)" L Point_zero
        "[0, 0, 0, 0]" "le64 lon1" "le64 lat1" "[]"]
      Point_Scan_truncation_boundary[of "fresh (replicate 24 0)" L Point_zero
        "[0, 0, 0, 0]" "rev (le64 lon1)" "rev (le64 lat1)" "[]"]
    by (simp add: fresh_def slice_len_def byte_of_char_def example_point_def be)
qed

text \<open>
  C7 (as amended). For every Point \<open>p\<close>, \<open>Value\<close> returns a buffer of 25 bytes and no error,
  and \<open>Scan\<close> of that buffer returns no error and a Point whose \<open>X\<close> and \<open>Y\<close> have the
  bits of those of \<open>p\<close>; when neither coordinate of \<open>p\<close> is a NaN (as for
  \<open>Point{X: -73.9654, Y: 40.7829}\<close>), they are equal to those of \<open>p\<close> under the
  IEEE-754 comparison.
\<close>

theorem Point_roundtrip:
  "\<exists>b q. Point_Value p = Return (Bytes b) None \<and> slice_len b = 25 \<and>
         Point_Scan L r (Bytes b) = Return q None \<and> X q = X p \<and> Y q = Y p \<and>
         (\<not> isNaN64 (X p) \<and> \<not> isNaN64 (Y p)
            \<longrightarrow> float64_eq (X q) (X p) \<and> float64_eq (Y q) (Y p))"
proof (intro exI conjI impI)
  show "Point_Value p = Return (Bytes (fresh (Point_bytes p))) None"
    by (rule Point_Value_eq)
  show "slice_len (fresh (Point_bytes p)) = 25"
    by (simp add: slice_len_def fresh_def)
  show "Point_Scan L r (Bytes (fresh (Point_bytes p))) = Return p None"
    by (rule Point_Scan_bytes)
  show "X p = X p" and "Y p = Y p"
    by simp_all
next
  assume "\<not> isNaN64 (X p) \<and> \<not> isNaN64 (Y p)"
  then show "float64_eq (X p) (X p)" and "float64_eq (Y p) (Y p)"
    by (simp_all add: float64_eq_def)
qed

theorem Point_roundtrip_witness:
  "\<forall>L r. \<exists>b q. Point_Value example_point = Return (Bytes b) None \<and> slice_len b = 25 \<and>
     Point_Scan L r (Bytes b) = Return q None \<and> float64_eq (X q) lon1 \<and> float64_eq (Y q) lat1"
proof (intro allI)
  fix L r
  have "\<not> isNaN64 (X example_point) \<and> \<not> isNaN64 (Y example_point)"
    by (simp add: example_point_def isNaN64_def lon1_def lat1_def)
  then show "\<exists>b q. Point_Value example_point = Return (Bytes b) None \<and> slice_len b = 25 \<and>
     Point_Scan L r (Bytes b) = Return q None \<and> float64_eq (X q) lon1 \<and> float64_eq (Y q) lat1"
    using Point_roundtrip[of example_point L r] by (auto simp: example_point_def)
qed

text \<open>
  The claim as stated fails for a Point with a NaN coordinate: the decoded \<open>X\<close> has the
  bits of the original and is not equal to it under the IEEE-754 comparison.
\<close>

theorem Point_roundtrip_counterexample:
  "\<forall>L r. Point_Value nan_point = Return (Bytes (fresh nan_point_bytes)) None \<and>
     Point_Scan L r (Bytes (fresh nan_point_bytes)) = Return nan_point None \<and>
     \<not> float64_eq (X nan_point) (X nan_point)"
proof (intro allI)
  fix L r
  have b: "Point_bytes nan_point = nan_point_bytes"
    by (simp add: Point_bytes_def point_bytes_def nan_point_def nan_point_bytes_def le32_def le64_def)
  have n: "\<not> float64_eq (X nan_point) (X nan_point)"
    by (simp add: float64_eq_def isNaN64_def nan_point_def)
  show "Point_Value nan_point = Return (Bytes (fresh nan_point_bytes)) None \<and>
     Point_Scan L r (Bytes (fresh nan_point_bytes)) = Return nan_point None \<and>
     \<not> float64_eq (X nan_point) (X nan_point)"
    using Point_Value_eq[of nan_point] Point_Scan_bytes[of L r nan_point] n by (simp add: b)
qed

text \<open>
  C4. The claim says that a text \<open>token(x y)\<close> whose token starts with \<open>P\<close> or \<open>p\<close> and is
  not \<open>POINT\<close> is decoded through the lenient format. The code does not do it: on
  \<open>point(1.5 2.5)\<close> the format \<open>POINT(%f %f)\<close> fails at its first letter, the format
  \<open>%s(%f %f)\<close> fails because \<open>%s\<close> takes \<open>point(1.5\<close>, and \<open>Scan\<close> returns the
  error "failed to parse Point" and leaves the receiver as it was, whatever \<open>%f\<close> does.
\<close>

theorem Point_Scan_lenient_text_fails:
  "\<forall>L. Point_Scan L Point_zero (Str ''point(1.5 2.5)'')
        = Return Point_zero (Some (PointParseFailed ''point(1.5 2.5)''))"
proof
  fix L
  have t: "is_point_text (bytes_of_string L ''point(1.5 2.5)'')"
    by (simp add: is_point_text_def) (simp add: bytes_of_string_def)
  have "Sscanf_POINT L ''point(1.5 2.5)'' = None"
    by (simp add: Sscanf_POINT_def)
  then show "Point_Scan L Point_zero (Str ''point(1.5 2.5)'')
        = Return Point_zero (Some (PointParseFailed ''point(1.5 2.5)''))"
    using t by (simp add: Point_Scan_def Point_scan_data_def Point_scan_text_primary)
qed

text \<open>More generally, a text is decoded only when the format \<open>POINT(%f %f)\<close> matches it.\<close>

lemma Point_Scan_text_only_primary:
  assumes "is_point_text (bytes_of_string L s)" and "Sscanf_POINT L s = None"
  shows "Point_Scan L p (Str s) = Return p (Some (PointParseFailed s))"
  using assms by (simp add: Point_Scan_def Point_scan_data_def Point_scan_text_primary)

section \<open>LineString: encoding and decoding\<close>

lemma put_points_append:
  "length pre = 13 + i * 16 \<Longrightarrow> length zs = 16 * length ps \<Longrightarrow>
   put_points ps i (pre @ zs) = Some (pre @ concat (map point_bytes ps))"
proof (induction ps arbitrary: i pre zs)
  case Nil
  then show ?case by simp
next
  case (Cons p ps)
  have len: "16 \<le> length zs"
    using Cons.prems by simp
  have w1: "PutUint64_at (pre @ zs) (13 + i * 16) (13 + i * 16 + 8) (Float64bits (X p))
      = Some (pre @ le64 (X p) @ drop 8 zs)"
    using len Cons.prems(1) by (simp add: PutUint64_at_append)
  have w2: "PutUint64_at ((pre @ le64 (X p)) @ drop 8 zs) (13 + i * 16 + 8) (13 + i * 16 + 16)
        (Float64bits (Y p))
      = Some ((pre @ le64 (X p)) @ le64 (Y p) @ drop 8 (drop 8 zs))"
    using len Cons.prems(1) by (subst PutUint64_at_append) simp_all
  have ih: "put_points ps (i + 1) ((pre @ point_bytes p) @ drop 16 zs)
      = Some ((pre @ point_bytes p) @ concat (map point_bytes ps))"
    using Cons.prems by (intro Cons.IH) simp_all
  have pb: "point_bytes p = le64 (X p) @ le64 (Y p)"
    by (simp add: point_bytes_def)
  show ?case
    using w1 w2 ih by (simp add: pb)
qed

lemma LineString_buffer_eq: "LineString_buffer p = Some (LineString_bytes p)"
proof -
  let ?n = "length (Points p)"
  let ?hdr = "[0, 0, 0, 0, 1] @ le32 2 @ le32 (of_nat ?n)"
  have r: "replicate (13 + ?n * 16) (0::byte) = replicate 13 0 @ replicate (?n * 16) 0"
    by (simp add: replicate_add)
  have hdr: "do {
       d0 \<leftarrow> set_byte (replicate 13 0 @ replicate (?n * 16) 0) 0 0;
       d1 \<leftarrow> set_byte d0 1 0;
       d2 \<leftarrow> set_byte d1 2 0;
       d3 \<leftarrow> set_byte d2 3 0;
       d4 \<leftarrow> set_byte d3 4 1;
       d5 \<leftarrow> PutUint32_at d4 5 9 WKBTypeLineString;
       PutUint32_at d5 9 13 (of_nat ?n) }
     = Some (?hdr @ replicate (?n * 16) 0)"
    by (simp add: set_byte_def PutUint32_at_def WKBTypeLineString_def eval_nat_numeral)
  have pp: "put_points (Points p) 0 (?hdr @ replicate (?n * 16) 0)
     = Some (?hdr @ concat (map point_bytes (Points p)))"
    by (intro put_points_append) simp_all
  have "LineString_buffer p = do {
     d6 \<leftarrow> do {
       d0 \<leftarrow> set_byte (replicate 13 0 @ replicate (?n * 16) 0) 0 0;
       d1 \<leftarrow> set_byte d0 1 0;
       d2 \<leftarrow> set_byte d1 2 0;
       d3 \<leftarrow> set_byte d2 3 0;
       d4 \<leftarrow> set_byte d3 4 1;
       d5 \<leftarrow> PutUint32_at d4 5 9 WKBTypeLineString;
       PutUint32_at d5 9 13 (of_nat ?n) };
     put_points (Points p) 0 d6 }"
    unfolding LineString_buffer_def r by (simp only: Option.bind_assoc)
  also have "\<dots> = Some (?hdr @ concat (map point_bytes (Points p)))"
    by (simp only: hdr pp Option.bind.simps)
  finally show ?thesis
    by (simp add: LineString_bytes_def)
qed

lemma LineString_Value_eq: "LineString_Value p = Return (Bytes (fresh (LineString_bytes p))) None"
  by (simp add: LineString_Value_def LineString_buffer_eq)

lemma length_concat_point_bytes [simp]: "length (concat (map point_bytes ps)) = 16 * length ps"
  by (induction ps) simp_all

lemma length_LineString_bytes [simp]: "length (LineString_bytes p) = 13 + 16 * length (Points p)"
  by (simp add: LineString_bytes_def)

lemma decodePoint_le:
  "decodePoint LittleEndian \<lparr>elems = le64 x, spare = le64 y @ r\<rparr> = Some \<lparr>X = x, Y = y\<rparr>"
  by (simp add: decodePoint_def reslice_def slice_cap_def Uint64_def slice_len_def)

lemma unat_offset:
  assumes "i < 2 ^ 28 - 1"
  shows "unat (13 + of_nat i * 16 :: uint32) = 13 + i * 16"
proof -
  have "(13 + of_nat i * 16 :: uint32) = of_nat (13 + i * 16)"
    by simp
  then have "unat (13 + of_nat i * 16 :: uint32) = (13 + i * 16) mod 2 ^ 32"
    by (simp only: unat_of_nat) simp
  also have "\<dots> = 13 + i * 16"
    using assms by simp
  finally show ?thesis .
qed

lemma unat_offset8:
  assumes "i < 2 ^ 28 - 1"
  shows "unat (21 + of_nat i * 16 :: uint32) = 21 + i * 16"
proof -
  have "(21 + of_nat i * 16 :: uint32) = of_nat (21 + i * 16)"
    by simp
  then have "unat (21 + of_nat i * 16 :: uint32) = (21 + i * 16) mod 2 ^ 32"
    by (simp only: unat_of_nat) simp
  also have "\<dots> = 21 + i * 16"
    using assms by simp
  finally show ?thesis .
qed

lemma scan_points_append:
  "length pre = 13 + i * 16 \<Longrightarrow> i + length ps < 2 ^ 28 \<Longrightarrow>
   scan_points LittleEndian \<lparr>elems = pre @ concat (map point_bytes ps), spare = sp\<rparr>
     (length ps) (of_nat i) = Some ps"
proof (induction ps arbitrary: i pre)
  case Nil
  then show ?case by simp
next
  case (Cons p ps)
  have i: "i < 2 ^ 28 - 1"
    using Cons.prems(2) by simp
  have rs: "reslice \<lparr>elems = pre @ le64 (X p) @ (le64 (Y p) @ concat (map point_bytes ps)), spare = sp\<rparr>
              (13 + i * 16) (13 + i * 16 + 8)
            = Some \<lparr>elems = le64 (X p), spare = (le64 (Y p) @ concat (map point_bytes ps)) @ sp\<rparr>"
    using Cons.prems(1) by (intro reslice_middle) simp_all
  have suc: "(of_nat (Suc i) :: uint32) = of_nat i + 1"
    by simp
  have ih: "scan_points LittleEndian
      \<lparr>elems = (pre @ point_bytes p) @ concat (map point_bytes ps), spare = sp\<rparr>
      (length ps) (of_nat i + 1) = Some ps"
    unfolding suc[symmetric] using Cons.prems by (intro Cons.IH) simp_all
  have pb: "point_bytes p = le64 (X p) @ le64 (Y p)"
    by (simp add: point_bytes_def)
  show ?case
    using rs ih decodePoint_le[of "X p" "Y p" "concat (map point_bytes ps) @ sp"]
    by (simp add: unat_offset[OF i] unat_offset8[OF i] pb)
qed

text \<open>
  A path of at least one and fewer than \<open>2^28\<close> points is decoded from its encoding
  as it was.
\<close>

lemma LineString_Scan_bytes:
  assumes "Points p \<noteq> []" and "length (Points p) < 2 ^ 28"
  shows "LineString_Scan L q (Bytes (fresh (LineString_bytes p))) = Return p None"
proof -
  let ?n = "length (Points p)"
  let ?hdr = "[0, 0, 0, 0, 1] @ le32 2 @ le32 (of_nat ?n)"
  let ?d = "fresh (LineString_bytes p)"
  have d: "?d = \<lparr>elems = ?hdr @ concat (map point_bytes (Points p)), spare = []\<rparr>"
    by (simp add: fresh_def LineString_bytes_def)
  have n: "unat (of_nat ?n :: uint32) = ?n"
    using assms(2) by (simp add: unat_of_nat)
  have len: "\<not> slice_len ?d < 29"
    using assms(1) by (cases "Points p") (simp_all add: slice_len_def fresh_def)
  have bo: "byte_order_of (elems ?d ! 4) = Some LittleEndian"
    by (simp add: d byte_order_of_def)
  have gt: "Option.bind (reslice ?d 5 9) (Uint32 LittleEndian) = Some 2"
    by (simp add: d reslice_def slice_cap_def Uint32_def slice_len_def)
  have np: "Option.bind (reslice ?d 9 13) (Uint32 LittleEndian) = Some (of_nat ?n)"
    by (simp add: d reslice_def slice_cap_def Uint32_def slice_len_def)
  have sp: "scan_points LittleEndian ?d ?n 0 = Some (Points p)"
    unfolding d using scan_points_append[of ?hdr 0 "Points p" "[]"] assms(2) by simp
  show ?thesis
    by (simp add: LineString_Scan_def LineString_scan_wkb_def len bo gt np n sp WKBTypeLineString_def)
qed

lemma LineString_Scan_short:
  "slice_len data < 29 \<Longrightarrow>
   LineString_Scan L q (Bytes data) = Return q (Some (WKBTooShort (slice_len data)))"
  by (simp add: LineString_Scan_def LineString_scan_wkb_def)

lemma LineString_Scan_short_string:
  "length s < 29 \<Longrightarrow> LineString_Scan L q (Str s) = Return q (Some (WKBTooShort (length s)))"
  by (simp add: LineString_Scan_def LineString_scan_wkb_def)

section \<open>Claims about LineString\<close>

text \<open>
  C6. For the path of the three points \<open>(-73.9654, 40.7829)\<close>, \<open>(-73.9632, 40.7845)\<close>,
  \<open>(-73.9610, 40.7861)\<close>, \<open>Value\<close> returns a buffer and no error, and \<open>Scan\<close> of that
  buffer returns no error and the same three points, with the same coordinates, in the
  same order, whatever the receiver held before.
\<close>

theorem LineString_roundtrip_example:
  "\<exists>b. LineString_Value example_path = Return (Bytes b) None \<and>
       LineString_Scan L q (Bytes b) = Return example_path None \<and>
       Points example_path =
         [\<lparr>X = lon1, Y = lat1\<rparr>, \<lparr>X = lon2, Y = lat2\<rparr>, \<lparr>X = lon3, Y = lat3\<rparr>]"
proof (intro exI conjI)
  show "LineString_Value example_path = Return (Bytes (fresh (LineString_bytes example_path))) None"
    by (rule LineString_Value_eq)
  show "LineString_Scan L q (Bytes (fresh (LineString_bytes example_path))) = Return example_path None"
    by (rule LineString_Scan_bytes) (simp_all add: example_path_def)
  show "Points example_path =
         [\<lparr>X = lon1, Y = lat1\<rparr>, \<lparr>X = lon2, Y = lat2\<rparr>, \<lparr>X = lon3, Y = lat3\<rparr>]"
    by (simp add: example_path_def)
qed

theorem LineString_roundtrip_example_witness:
  "\<forall>L. \<exists>b. LineString_Value example_path = Return (Bytes b) None \<and> slice_len b = 61 \<and>
       LineString_Scan L LineString_zero (Bytes b) = Return example_path None"
proof
  fix L
  obtain b where b: "LineString_Value example_path = Return (Bytes b) None"
      "LineString_Scan L LineString_zero (Bytes b) = Return example_path None"
    using LineString_roundtrip_example[of L LineString_zero] by blast
  have "b = fresh (LineString_bytes example_path)"
    using b(1) by (simp add: LineString_Value_eq)
  then have "slice_len b = 61"
    by (simp add: slice_len_def fresh_def example_path_def)
  then show "\<exists>b. LineString_Value example_path = Return (Bytes b) None \<and> slice_len b = 61 \<and>
       LineString_Scan L LineString_zero (Bytes b) = Return example_path None"
    using b by blast
qed

text \<open>
  C10. \<open>Value\<close> of a path with no points returns a buffer of 13 bytes and no error;
  \<open>Scan\<close> of any buffer or string shorter than 29 bytes returns the error
  "WKB data too short" and leaves the receiver as it was; so \<open>Scan\<close> of the encoding of
  a path with no points always returns that error: the empty path does not round-trip.
\<close>

theorem LineString_empty_no_roundtrip:
  "(Points p = [] \<longrightarrow>
      (\<exists>b. LineString_Value p = Return (Bytes b) None \<and> slice_len b = 13 \<and>
           LineString_Scan L q (Bytes b) = Return q (Some (WKBTooShort 13)))) \<and>
   (slice_len data < 29 \<longrightarrow>
      LineString_Scan L q (Bytes data) = Return q (Some (WKBTooShort (slice_len data)))) \<and>
   (length s < 29 \<longrightarrow>
      LineString_Scan L q (Str s) = Return q (Some (WKBTooShort (length s))))"
proof (intro conjI impI)
  assume e: "Points p = []"
  have l: "slice_len (fresh (LineString_bytes p)) = 13"
    using e by (simp add: slice_len_def fresh_def)
  then have "LineString_Scan L q (Bytes (fresh (LineString_bytes p))) = Return q (Some (WKBTooShort 13))"
    using LineString_Scan_short[of "fresh (LineString_bytes p)" L q] by simp
  then show "\<exists>b. LineString_Value p = Return (Bytes b) None \<and> slice_len b = 13 \<and>
           LineString_Scan L q (Bytes b) = Return q (Some (WKBTooShort 13))"
    using l LineString_Value_eq[of p] by blast
next
  assume "slice_len data < 29"
  then show "LineString_Scan L q (Bytes data) = Return q (Some (WKBTooShort (slice_len data)))"
    by (rule LineString_Scan_short)
next
  assume "length s < 29"
  then show "LineString_Scan L q (Str s) = Return q (Some (WKBTooShort (length s)))"
    by (rule LineString_Scan_short_string)
qed

theorem LineString_empty_no_roundtrip_witness:
  "\<forall>L. LineString_Value LineString_zero
          = Return (Bytes (fresh [0, 0, 0, 0, 1, 2, 0, 0, 0, 0, 0, 0, 0])) None \<and>
        LineString_Scan L example_path (Bytes (fresh [0, 0, 0, 0, 1, 2, 0, 0, 0, 0, 0, 0, 0]))
          = Return example_path (Some (WKBTooShort 13)) \<and>
        LineString_Scan L example_path (Str ''LINESTRING(0 0, 1 1)'')
          = Return example_path (Some (WKBTooShort 20))"
proof
  fix L
  let ?b = "fresh [0, 0, 0, 0, 1, 2, 0, 0, 0, 0, 0, 0, 0]"
  have v: "LineString_Value LineString_zero = Return (Bytes ?b) None"
    by (simp add: LineString_Value_eq LineString_bytes_def LineString_zero_def le32_def)
  have "Points LineString_zero = []"
    by (simp add: LineString_zero_def)
  then obtain b where b: "LineString_Value LineString_zero = Return (Bytes b) None"
      "LineString_Scan L example_path (Bytes b) = Return example_path (Some (WKBTooShort 13))"
    using LineString_empty_no_roundtrip[of LineString_zero L example_path] by blast
  have s: "LineString_Scan L example_path (Str ''LINESTRING(0 0, 1 1)'')
          = Return example_path (Some (WKBTooShort 20))"
    using LineString_empty_no_roundtrip[of LineString_zero L example_path _ "''LINESTRING(0 0, 1 1)''"]
    by simp
  from b(1) v have "b = ?b"
    by simp
  then show "LineString_Value LineString_zero = Return (Bytes ?b) None \<and>
        LineString_Scan L example_path (Bytes ?b) = Return example_path (Some (WKBTooShort 13)) \<and>
        LineString_Scan L example_path (Str ''LINESTRING(0 0, 1 1)'')
          = Return example_path (Some (WKBTooShort 20))"
    using v b(2) s by simp
qed

section \<open>Vector: encoding and decoding\<close>

lemma elem_bytes_length:
  "element_code (type_of e) = Some (sz, tag) \<Longrightarrow> length (elem_bytes e) = sz"
  by (cases e) auto

lemma put_elem_append:
  assumes "element_code (type_of e) = Some (sz, tag)" and "sz \<le> length zs" and "offset = length pre"
  shows "put_elem tag e offset (pre @ zs) = Some (pre @ elem_bytes e @ drop sz zs)"
  using assms by (cases e) (auto simp: put_elem_def PutUint32_at_def PutUint64_at_def)

lemma put_elems_append:
  assumes "element_code T = Some (sz, tag)"
  shows "\<forall>e\<in>set xs. type_of e = T \<Longrightarrow> offset = length pre \<Longrightarrow> length zs = length xs * sz \<Longrightarrow>
    put_elems tag sz xs offset (pre @ zs) = Some (pre @ concat (map elem_bytes xs))"
proof (induction xs arbitrary: offset pre zs)
  case Nil
  then show ?case by simp
next
  case (Cons e es)
  have ty: "element_code (type_of e) = Some (sz, tag)"
    using Cons.prems(1) assms by simp
  have len: "length (elem_bytes e) = sz"
    using ty by (rule elem_bytes_length)
  have w: "put_elem tag e offset (pre @ zs) = Some ((pre @ elem_bytes e) @ drop sz zs)"
    using put_elem_append[OF ty _ Cons.prems(2), of zs] Cons.prems(3) by simp
  have ih: "put_elems tag sz es (offset + sz) ((pre @ elem_bytes e) @ drop sz zs)
      = Some ((pre @ elem_bytes e) @ concat (map elem_bytes es))"
    using Cons.prems len by (intro Cons.IH) simp_all
  show ?case
    using w ih by simp
qed

lemma Vector_buffer_eq:
  assumes "element_code T = Some (sz, tag)" and "\<forall>e\<in>set xs. type_of e = T"
  shows "Vector_buffer sz tag xs = Some (Vector_bytes tag xs)"
proof -
  let ?n = "length xs"
  have r: "replicate (1 + 4 + ?n * sz) (0::byte) = replicate 5 0 @ replicate (?n * sz) 0"
    by (simp add: replicate_add[symmetric])
  have hdr: "do {
       d0 \<leftarrow> set_byte (replicate 5 0 @ replicate (?n * sz) 0) 0 tag;
       PutUint32_at d0 1 5 (of_nat ?n) }
     = Some ((tag # le32 (of_nat ?n)) @ replicate (?n * sz) 0)"
    by (simp add: set_byte_def PutUint32_at_def eval_nat_numeral)
  have pe: "put_elems tag sz xs 5 ((tag # le32 (of_nat ?n)) @ replicate (?n * sz) 0)
     = Some ((tag # le32 (of_nat ?n)) @ concat (map elem_bytes xs))"
    using put_elems_append[OF assms(1) assms(2), of 5 "tag # le32 (of_nat ?n)" "replicate (?n * sz) 0"]
    by simp
  have "Vector_buffer sz tag xs = do {
     d1 \<leftarrow> do {
       d0 \<leftarrow> set_byte (replicate 5 0 @ replicate (?n * sz) 0) 0 tag;
       PutUint32_at d0 1 5 (of_nat ?n) };
     put_elems tag sz xs 5 d1 }"
    unfolding Vector_buffer_def r by (simp only: Option.bind_assoc)
  also have "\<dots> = Some ((tag # le32 (of_nat ?n)) @ concat (map elem_bytes xs))"
    by (simp only: hdr pe Option.bind.simps)
  finally show ?thesis
    by (simp add: Vector_bytes_def)
qed

lemma Vector_Value_eq:
  assumes "Valid v" and "Data v \<noteq> []" and c: "element_code T = Some (sz, tag)"
    and ty: "\<forall>e\<in>set (Data v). type_of e = T"
  shows "Vector_Value v = Return (Bytes (fresh (Vector_bytes tag (Data v)))) None"
proof -
  have "type_of (Data v ! 0) = T"
    using assms(2) ty by (cases "Data v") simp_all
  then show ?thesis
    using assms(1,2) c Vector_buffer_eq[OF c ty] by (simp add: Vector_Value_def)
qed

lemma decode_elem_append:
  assumes "element_code (type_of e) = Some (sz, tag)" and "offset = length pre"
  shows "decode_elem tag \<lparr>elems = pre @ elem_bytes e @ r, spare = sp\<rparr> offset = Some e"
  using assms
  by (cases e) (auto simp: decode_elem_def reslice_def slice_cap_def Uint32_def Uint64_def slice_len_def)

lemma scan_elems_append:
  assumes "element_code T = Some (sz, tag)"
  shows "\<forall>e\<in>set xs. type_of e = T \<Longrightarrow> offset = length pre \<Longrightarrow>
    scan_elems T tag sz \<lparr>elems = pre @ concat (map elem_bytes xs) @ suf, spare = sp\<rparr>
      (length xs) offset = Some xs"
proof (induction xs arbitrary: offset pre)
  case Nil
  then show ?case by simp
next
  case (Cons e es)
  have ty: "element_code (type_of e) = Some (sz, tag)"
    using Cons.prems(1) assms by simp
  have len: "length (elem_bytes e) = sz"
    using ty by (rule elem_bytes_length)
  have d: "decode_elem tag
      \<lparr>elems = pre @ elem_bytes e @ concat (map elem_bytes es) @ suf, spare = sp\<rparr> offset = Some e"
    using ty Cons.prems(2) by (rule decode_elem_append)
  have a: "assert_type T e = Some e"
    using Cons.prems(1) by (simp add: assert_type_def)
  have ih: "scan_elems T tag sz
      \<lparr>elems = (pre @ elem_bytes e) @ concat (map elem_bytes es) @ suf, spare = sp\<rparr>
      (length es) (offset + sz) = Some es"
    using Cons.prems len by (intro Cons.IH) simp_all
  show ?case
    using d a ih by simp
qed

lemma element_size_code: "element_code T = Some (sz, tag) \<Longrightarrow> element_size tag = Some sz"
  by (cases T) (auto simp: element_size_def)

lemma length_concat_elem_bytes:
  "element_code T = Some (sz, tag) \<Longrightarrow> \<forall>e\<in>set xs. type_of e = T \<Longrightarrow>
   length (concat (map elem_bytes xs)) = length xs * sz"
  by (induction xs) (auto simp: elem_bytes_length)

text \<open>
  The dimension is written as \<open>uint32(len(v.Data))\<close>: \<open>Scan\<close> reads back the first
  \<open>len(v.Data) mod 2^32\<close> elements of the encoding.
\<close>

lemma Vector_Scan_bytes:
  assumes c: "element_code T = Some (sz, tag)" and ty: "\<forall>e\<in>set xs. type_of e = T"
  shows "Vector_Scan L T q (Bytes (fresh (Vector_bytes tag xs)))
     = Return \<lparr>Data = take (length xs mod 2 ^ 32) xs,
                Dimension = int (length xs mod 2 ^ 32), Valid = True\<rparr> None"
proof -
  let ?n = "length xs" let ?m = "length xs mod 2 ^ 32"
  let ?d = "fresh (Vector_bytes tag xs)"
  let ?hdr = "tag # le32 (of_nat ?n)"
  have d: "?d = \<lparr>elems = ?hdr @ concat (map elem_bytes (take ?m xs))
                  @ concat (map elem_bytes (drop ?m xs)), spare = []\<rparr>"
    by (simp add: fresh_def Vector_bytes_def flip: concat_append map_append)
  have d': "?d = \<lparr>elems = ?hdr @ concat (map elem_bytes xs), spare = []\<rparr>"
    by (simp add: fresh_def Vector_bytes_def)
  have len: "slice_len ?d = 5 + ?n * sz"
    using length_concat_elem_bytes[OF c ty] by (simp add: slice_len_def d')
  have n: "Option.bind (reslice ?d 1 5) (Uint32 LittleEndian) = Some (of_nat ?n)"
    by (simp add: d' reslice_def slice_cap_def Uint32_def slice_len_def)
  have un: "unat (of_nat ?n :: uint32) = ?m"
    by (simp add: unat_of_nat)
  have tg: "elems ?d ! 0 = tag"
    by (simp add: d')
  have tyt: "\<forall>e\<in>set (take ?m xs). type_of e = T"
    using ty by (meson in_set_takeD)
  have se: "scan_elems T tag sz ?d ?m 5 = Some (take ?m xs)"
    unfolding d
    using scan_elems_append[OF c tyt, of 5 ?hdr "concat (map elem_bytes (drop ?m xs))" "[]"]
    by simp
  have es: "element_size tag = Some sz"
    using c by (rule element_size_code)
  have short: "\<not> slice_len ?d < 5 + ?m * sz"
    unfolding len by (simp add: not_less)
  have five: "\<not> slice_len ?d < 5"
    unfolding len by simp
  show ?thesis
    by (simp only: Vector_Scan_def Vector_scan_binary_def driver_value.case five n un tg es
        short se if_False option.case Let_def)
qed

section \<open>Claims about Vector\<close>

text \<open>
  C1 (as amended). Let \<open>T\<close> be one of \<open>float32\<close>, \<open>float64\<close>, \<open>int32\<close>, \<open>int64\<close> and \<open>v\<close> a
  \<open>Vector[T]\<close> that is valid (\<open>Valid\<close> is true and \<open>Dimension\<close> is the length of \<open>Data\<close>),
  not empty and of fewer than \<open>2^32\<close> elements. Then \<open>Value\<close> returns a buffer and no
  error, and \<open>Scan\<close> of that buffer returns no error and a vector equal to \<open>v\<close>: the same
  \<open>Dimension\<close>, the same elements bit for bit, and \<open>Valid\<close> true, whatever the receiver
  held before.
\<close>

theorem Vector_roundtrip:
  assumes "T \<in> {Float32, Float64, Int32, Int64}"
    and "\<forall>e\<in>set (Data v). type_of e = T"
    and "Valid v" and "Data v \<noteq> []" and "Dimension v = int (length (Data v))"
    and "length (Data v) < 2 ^ 32"
  shows "\<exists>b. Vector_Value v = Return (Bytes b) None \<and> Vector_Scan L T q (Bytes b) = Return v None"
proof -
  obtain sz tag where c: "element_code T = Some (sz, tag)"
    using assms(1) by auto
  have v: "Vector_Value v = Return (Bytes (fresh (Vector_bytes tag (Data v)))) None"
    using assms(3,4) c assms(2) by (rule Vector_Value_eq)
  have "Vector_Scan L T q (Bytes (fresh (Vector_bytes tag (Data v)))) = Return v None"
    using Vector_Scan_bytes[OF c assms(2), of L q] assms(3,5,6) by simp
  then show ?thesis
    using v by blast
qed

theorem Vector_roundtrip_witness:
  "\<forall>L q. Vector_Value small_vector
            = Return (Bytes (fresh [1, 2, 0, 0, 0, 0, 0, 0x80, 0x3F, 0, 0, 0x20, 0x40])) None \<and>
          Vector_Scan L Float32 q (Bytes (fresh [1, 2, 0, 0, 0, 0, 0, 0x80, 0x3F, 0, 0, 0x20, 0x40]))
            = Return small_vector None"
proof (intro allI)
  fix L q
  let ?b = "fresh [1, 2, 0, 0, 0, 0, 0, 0x80, 0x3F, 0, 0, 0x20, 0x40]"
  have h: "Float32 \<in> {Float32, Float64, Int32, Int64}"
      "\<forall>e\<in>set (Data small_vector). type_of e = Float32"
      "Valid small_vector" "Data small_vector \<noteq> []"
      "Dimension small_vector = int (length (Data small_vector))"
      "length (Data small_vector) < 2 ^ 32"
    by (simp_all add: small_vector_def)
  obtain b where b: "Vector_Value small_vector = Return (Bytes b) None"
      "Vector_Scan L Float32 q (Bytes b) = Return small_vector None"
    using Vector_roundtrip[OF h, of L q] by blast
  have "Vector_Value small_vector = Return (Bytes ?b) None"
    using Vector_Value_eq[of small_vector Float32 4 1] h(2)
    by (simp add: small_vector_def Vector_bytes_def le32_def fresh_def)
  then show "Vector_Value small_vector = Return (Bytes ?b) None \<and>
          Vector_Scan L Float32 q (Bytes ?b) = Return small_vector None"
    using b by simp
qed

text \<open>
  The claim as stated fails for a vector of \<open>2^32\<close> elements: its dimension is written
  as 0, and \<open>Scan\<close> of its encoding returns the empty vector.
\<close>

theorem Vector_roundtrip_counterexample:
  "\<forall>L q. Valid huge_vector \<and> Data huge_vector = replicate (2 ^ 32) (I32 0) \<and>
     Dimension huge_vector = int (length (Data huge_vector)) \<and>
     Vector_Value huge_vector = Return (Bytes (fresh (Vector_bytes 3 (Data huge_vector)))) None \<and>
     Vector_Scan L Int32 q (Bytes (fresh (Vector_bytes 3 (Data huge_vector))))
       = Return \<lparr>Data = [], Dimension = 0, Valid = True\<rparr> None \<and>
     \<lparr>Data = [], Dimension = 0, Valid = True\<rparr> \<noteq> huge_vector"
proof (intro allI)
  fix L q
  let ?xs = "replicate (2 ^ 32) (I32 0)"
  have c: "element_code Int32 = Some (4, 3)"
    by simp
  have ty: "\<forall>e\<in>set (Data huge_vector). type_of e = Int32"
    by (simp add: huge_vector_def)
  have v: "Vector_Value huge_vector = Return (Bytes (fresh (Vector_bytes 3 (Data huge_vector)))) None"
    using Vector_Value_eq[of huge_vector, OF _ _ c ty] by (simp add: huge_vector_def)
  have s: "Vector_Scan L Int32 q (Bytes (fresh (Vector_bytes 3 (Data huge_vector))))
        = Return \<lparr>Data = [], Dimension = 0, Valid = True\<rparr> None"
    using Vector_Scan_bytes[OF c ty, of L q] by (simp add: huge_vector_def)
  show "Valid huge_vector \<and> Data huge_vector = replicate (2 ^ 32) (I32 0) \<and>
     Dimension huge_vector = int (length (Data huge_vector)) \<and>
     Vector_Value huge_vector = Return (Bytes (fresh (Vector_bytes 3 (Data huge_vector)))) None \<and>
     Vector_Scan L Int32 q (Bytes (fresh (Vector_bytes 3 (Data huge_vector))))
       = Return \<lparr>Data = [], Dimension = 0, Valid = True\<rparr> None \<and>
     \<lparr>Data = [], Dimension = 0, Valid = True\<rparr> \<noteq> huge_vector"
    using v s by (simp add: huge_vector_def)
qed

lemma Vector_Value_null:
  "\<not> Valid v \<or> Data v = [] \<Longrightarrow> Vector_Value v = Return Null None"
  by (auto simp: Vector_Value_def)

lemma scanFromString_empty:
  "scanFromString L T q ''[]'' = Return \<lparr>Data = [], Dimension = 0, Valid = True\<rparr> None"
  by (simp add: scanFromString_def TrimSpace_def isSpace_def HasPrefix_def HasSuffix_def)

lemma Vector_Scan_dimension_zero:
  assumes "elems b = [tag, 0, 0, 0, 0]" and "tag \<in> {1, 2, 3, 4}"
  shows "Vector_Scan L T q (Bytes b) = Return \<lparr>Data = [], Dimension = 0, Valid = True\<rparr> None"
proof -
  have five: "\<not> slice_len b < 5"
    using assms(1) by (simp add: slice_len_def)
  have n: "Option.bind (reslice b 1 5) (Uint32 LittleEndian) = Some 0"
    using assms(1) by (simp add: reslice_def slice_cap_def Uint32_def slice_len_def u32_le_def)
  obtain sz where es: "element_size (elems b ! 0) = Some sz"
    using assms by (auto simp: element_size_def)
  have z: "unat (0 :: uint32) = 0"
    by simp
  have short: "\<not> slice_len b < 5 + 0 * sz"
    using five by simp
  have se: "scan_elems T (elems b ! 0) sz b 0 5 = Some []"
    by simp
  show ?thesis
    by (simp only: Vector_Scan_def Vector_scan_binary_def driver_value.case five n z es
        short se if_False option.case Let_def int_ops)
qed

text \<open>
  C5 (as amended). \<open>Value\<close> of a vector that is not valid or has no elements returns
  \<open>nil\<close> and no error. \<open>Scan\<close> of the text \<open>[]\<close> returns no error and the vector with
  \<open>Valid\<close> true, \<open>Dimension\<close> 0 and no elements. This is not the only way to a valid
  vector with no elements: \<open>Scan\<close> of a binary buffer of five bytes, a tag in
  \<open>{1, 2, 3, 4}\<close> and the dimension 0, returns the same vector, and \<open>NewVector\<close>
  of an empty slice is that vector.
\<close>

theorem Vector_empty:
  "(\<not> Valid v \<or> Data v = [] \<longrightarrow> Vector_Value v = Return Null None) \<and>
   Vector_Scan L T q (Str ''[]'') = Return \<lparr>Data = [], Dimension = 0, Valid = True\<rparr> None \<and>
   (elems b = [tag, 0, 0, 0, 0] \<and> tag \<in> {1, 2, 3, 4}
      \<longrightarrow> Vector_Scan L T q (Bytes b) = Return \<lparr>Data = [], Dimension = 0, Valid = True\<rparr> None) \<and>
   NewVector [] = \<lparr>Data = [], Dimension = 0, Valid = True\<rparr>"
proof (intro conjI impI)
  assume "\<not> Valid v \<or> Data v = []"
  then show "Vector_Value v = Return Null None"
    by (rule Vector_Value_null)
next
  show "Vector_Scan L T q (Str ''[]'') = Return \<lparr>Data = [], Dimension = 0, Valid = True\<rparr> None"
    by (simp add: Vector_Scan_def scanFromString_empty)
next
  assume "elems b = [tag, 0, 0, 0, 0] \<and> tag \<in> {1, 2, 3, 4}"
  then show "Vector_Scan L T q (Bytes b) = Return \<lparr>Data = [], Dimension = 0, Valid = True\<rparr> None"
    using Vector_Scan_dimension_zero[of b tag L T q] by blast
next
  show "NewVector [] = \<lparr>Data = [], Dimension = 0, Valid = True\<rparr>"
    by (simp add: NewVector_def)
qed

theorem Vector_empty_witness:
  "\<forall>L. Vector_Value Vector_zero = Return Null None \<and>
        Vector_Value \<lparr>Data = [], Dimension = 0, Valid = True\<rparr> = Return Null None \<and>
        Vector_Scan L Float64 small_vector (Str ''[]'')
          = Return \<lparr>Data = [], Dimension = 0, Valid = True\<rparr> None \<and>
        Vector_Scan L Float64 small_vector (Bytes (fresh [2, 0, 0, 0, 0]))
          = Return \<lparr>Data = [], Dimension = 0, Valid = True\<rparr> None"
proof
  fix L
  show "Vector_Value Vector_zero = Return Null None \<and>
        Vector_Value \<lparr>Data = [], Dimension = 0, Valid = True\<rparr> = Return Null None \<and>
        Vector_Scan L Float64 small_vector (Str ''[]'')
          = Return \<lparr>Data = [], Dimension = 0, Valid = True\<rparr> None \<and>
        Vector_Scan L Float64 small_vector (Bytes (fresh [2, 0, 0, 0, 0]))
          = Return \<lparr>Data = [], Dimension = 0, Valid = True\<rparr> None"
    using Vector_empty[of Vector_zero L Float64 small_vector "fresh [2, 0, 0, 0, 0]" 2]
      Vector_empty[of "\<lparr>Data = [], Dimension = 0, Valid = True\<rparr>" L Float64 small_vector
        "fresh [2, 0, 0, 0, 0]" 2]
    by (simp add: Vector_zero_def fresh_def)
qed

text \<open>
  The claim as stated fails: a binary buffer, which is not the text \<open>[]\<close>, is decoded
  to a valid vector with no elements.
\<close>

theorem Vector_empty_counterexample:
  "\<forall>L. Vector_Scan L Float32 Vector_zero (Bytes (fresh [1, 0, 0, 0, 0]))
          = Return \<lparr>Data = [], Dimension = 0, Valid = True\<rparr> None \<and>
        Bytes (fresh [1, 0, 0, 0, 0]) \<noteq> Str ''[]''"
proof
  fix L
  have "Vector_Scan L Float32 Vector_zero (Bytes (fresh [1, 0, 0, 0, 0]))
          = Return \<lparr>Data = [], Dimension = 0, Valid = True\<rparr> None"
    by (rule Vector_Scan_dimension_zero[of _ 1]) (simp_all add: fresh_def)
  then show "Vector_Scan L Float32 Vector_zero (Bytes (fresh [1, 0, 0, 0, 0]))
          = Return \<lparr>Data = [], Dimension = 0, Valid = True\<rparr> None \<and>
        Bytes (fresh [1, 0, 0, 0, 0]) \<noteq> Str ''[]''"
    by simp
qed

section \<open>Claims about every codec\<close>

lemma short_path_scan_points:
  "scan_points LittleEndian (fresh short_path) (Suc (Suc 0)) 0 = None"
  by (simp add: short_path_def fresh_def reslice_def slice_cap_def decodePoint_def Uint64_def
      slice_len_def)

lemma short_path_panics: "LineString_Scan L q (Bytes (fresh short_path)) = Panic"
proof -
  have len: "\<not> slice_len (fresh short_path) < 29"
    by (simp add: short_path_def slice_len_def fresh_def)
  have bo: "byte_order_of (elems (fresh short_path) ! 4) = Some LittleEndian"
    by (simp add: short_path_def fresh_def byte_order_of_def)
  have gt: "Option.bind (reslice (fresh short_path) 5 9) (Uint32 LittleEndian) = Some 2"
    by (simp add: short_path_def fresh_def reslice_def slice_cap_def Uint32_def slice_len_def
        u32_le_def)
  have np: "Option.bind (reslice (fresh short_path) 9 13) (Uint32 LittleEndian) = Some 2"
    by (simp add: short_path_def fresh_def reslice_def slice_cap_def Uint32_def slice_len_def
        u32_le_def)
  have two: "unat (2 :: uint32) = Suc (Suc 0)"
    by simp
  show ?thesis
    by (simp only: LineString_Scan_def LineString_scan_wkb_def driver_value.case len bo gt np two
        short_path_scan_points WKBTypeLineString_def if_False option.case simp_thms)
qed

lemma double_vector_panics: "Vector_Scan L Float32 q (Bytes (fresh double_vector)) = Panic"
proof -
  let ?d = "fresh double_vector"
  have five: "\<not> slice_len ?d < 5"
    by (simp add: double_vector_def slice_len_def fresh_def)
  have n: "Option.bind (reslice ?d 1 5) (Uint32 LittleEndian) = Some 1"
    by (simp add: double_vector_def fresh_def reslice_def slice_cap_def Uint32_def slice_len_def
        u32_le_def)
  have tg: "elems ?d ! 0 = 2"
    by (simp add: double_vector_def fresh_def)
  have es: "element_size 2 = Some 8"
    by (simp add: element_size_def)
  have one: "unat (1 :: uint32) = Suc 0"
    by simp
  have short: "\<not> slice_len ?d < 5 + Suc 0 * 8"
    by (simp add: double_vector_def slice_len_def fresh_def)
  have se: "scan_elems Float32 2 8 ?d (Suc 0) 5 = None"
    by (simp add: double_vector_def fresh_def decode_elem_def reslice_def slice_cap_def Uint64_def
        slice_len_def assert_type_def)
  show ?thesis
    by (simp only: Vector_Scan_def Vector_scan_binary_def driver_value.case five n one tg es
        short se if_False option.case Let_def)
qed

text \<open>
  Both panics are general: \<open>Scan\<close> of a \<open>Vector[T]\<close> panics on the encoding of any
  vector of another element type that has an element, and \<open>LineString.Scan\<close> panics on
  any buffer that holds at least one point and declares more points than it holds.
\<close>

lemma Vector_Scan_other_type_panics:
  assumes c: "element_code T' = Some (sz, tag)" and ty: "\<forall>e\<in>set xs. type_of e = T'"
    and ne: "xs \<noteq> []" and lt: "length xs < 2 ^ 32" and diff: "T \<noteq> T'"
  shows "Vector_Scan L T q (Bytes (fresh (Vector_bytes tag xs))) = Panic"
proof -
  obtain e es where xs: "xs = e # es"
    using ne by (cases xs) auto
  let ?n = "length xs"
  let ?d = "fresh (Vector_bytes tag xs)"
  let ?hdr = "tag # le32 (of_nat ?n)"
  have d: "?d = \<lparr>elems = ?hdr @ elem_bytes e @ concat (map elem_bytes es), spare = []\<rparr>"
    by (simp add: fresh_def Vector_bytes_def xs)
  have len: "slice_len ?d = 5 + ?n * sz"
    using length_concat_elem_bytes[OF c ty] by (simp add: slice_len_def fresh_def Vector_bytes_def)
  have n: "Option.bind (reslice ?d 1 5) (Uint32 LittleEndian) = Some (of_nat ?n)"
    by (simp add: fresh_def Vector_bytes_def reslice_def slice_cap_def Uint32_def slice_len_def)
  have "unat (of_nat ?n :: uint32) = ?n mod 2 ^ 32"
    by (simp only: unat_of_nat) simp
  then have un: "unat (of_nat ?n :: uint32) = Suc (length es)"
    using lt by (simp add: xs)
  have tg: "elems ?d ! 0 = tag"
    by (simp add: fresh_def Vector_bytes_def)
  have es: "element_size tag = Some sz"
    using c by (rule element_size_code)
  have short: "\<not> slice_len ?d < 5 + Suc (length es) * sz"
    unfolding len by (simp add: xs)
  have five: "\<not> slice_len ?d < 5"
    unfolding len by simp
  have te: "element_code (type_of e) = Some (sz, tag)"
    using c ty xs by simp
  have de: "decode_elem tag ?d 5 = Some e"
    unfolding d using decode_elem_append[OF te, of 5 ?hdr] by simp
  have "assert_type T e = None"
    using ty diff xs by (simp add: assert_type_def)
  then have se: "scan_elems T tag sz ?d (Suc (length es)) 5 = None"
    using de by simp
  show ?thesis
    by (simp only: Vector_Scan_def Vector_scan_binary_def driver_value.case five n un tg es
        short se if_False option.case Let_def)
qed

lemma scan_points_runs_out:
  "length pre = 13 + i * 16 \<Longrightarrow> length ps < k \<Longrightarrow> i + k < 2 ^ 28 \<Longrightarrow>
   scan_points LittleEndian \<lparr>elems = pre @ concat (map point_bytes ps), spare = []\<rparr> k (of_nat i) = None"
proof (induction ps arbitrary: i pre k)
  case Nil
  then obtain k' where k: "k = Suc k'"
    by (cases k) auto
  have i: "i < 2 ^ 28 - 1"
    using Nil.prems(3) k by simp
  have "reslice \<lparr>elems = pre, spare = []\<rparr> (13 + i * 16) (21 + i * 16) = None"
    using Nil.prems(1) by (simp add: reslice_def slice_cap_def)
  then show ?case
    by (simp add: k unat_offset[OF i] unat_offset8[OF i])
next
  case (Cons p ps)
  then obtain k' where k: "k = Suc k'"
    by (cases k) auto
  have i: "i < 2 ^ 28 - 1"
    using Cons.prems(3) k by simp
  have rs: "reslice \<lparr>elems = pre @ le64 (X p) @ (le64 (Y p) @ concat (map point_bytes ps)), spare = []\<rparr>
              (13 + i * 16) (13 + i * 16 + 8)
            = Some \<lparr>elems = le64 (X p), spare = (le64 (Y p) @ concat (map point_bytes ps)) @ []\<rparr>"
    using Cons.prems(1) by (intro reslice_middle) simp_all
  have suc: "(of_nat (Suc i) :: uint32) = of_nat i + 1"
    by simp
  have ih: "scan_points LittleEndian
      \<lparr>elems = (pre @ point_bytes p) @ concat (map point_bytes ps), spare = []\<rparr>
      k' (of_nat i + 1) = None"
    unfolding suc[symmetric] using Cons.prems k by (intro Cons.IH) simp_all
  have pb: "point_bytes p = le64 (X p) @ le64 (Y p)"
    by (simp add: point_bytes_def)
  show ?case
    using rs ih decodePoint_le[of "X p" "Y p" "concat (map point_bytes ps)"]
    by (simp add: k unat_offset[OF i] unat_offset8[OF i] pb)
qed

lemma LineString_Scan_truncated_panics:
  assumes "ps \<noteq> []" and "length ps < n" and "n < 2 ^ 28"
  shows "LineString_Scan L q
     (Bytes (fresh ([0, 0, 0, 0, 1] @ le32 2 @ le32 (of_nat n) @ concat (map point_bytes ps)))) = Panic"
proof -
  let ?hdr = "[0, 0, 0, 0, 1] @ le32 2 @ le32 (of_nat n)"
  let ?d = "fresh (?hdr @ concat (map point_bytes ps))"
  have d: "?d = \<lparr>elems = ?hdr @ concat (map point_bytes ps), spare = []\<rparr>"
    by (simp add: fresh_def)
  have "unat (of_nat n :: uint32) = n mod 2 ^ 32"
    by (simp only: unat_of_nat) simp
  then have n: "unat (of_nat n :: uint32) = n"
    using assms(3) by simp
  have len: "\<not> slice_len ?d < 29"
    using assms(1) by (cases ps) (simp_all add: slice_len_def fresh_def)
  have bo: "byte_order_of (elems ?d ! 4) = Some LittleEndian"
    by (simp add: fresh_def byte_order_of_def)
  have gt: "Option.bind (reslice ?d 5 9) (Uint32 LittleEndian) = Some 2"
    by (simp add: fresh_def reslice_def slice_cap_def Uint32_def slice_len_def)
  have np: "Option.bind (reslice ?d 9 13) (Uint32 LittleEndian) = Some (of_nat n)"
    by (simp add: fresh_def reslice_def slice_cap_def Uint32_def slice_len_def)
  have sp: "scan_points LittleEndian ?d n 0 = None"
    unfolding d using scan_points_runs_out[of ?hdr 0 ps n] assms(2,3) by simp
  show ?thesis
    using len bo gt np sp
    by (simp add: LineString_Scan_def LineString_scan_wkb_def n WKBTypeLineString_def)
qed

text \<open>
  C2. The claim says that no input makes a decoder panic. The code does not keep it:
  \<open>Scan\<close> of a \<open>Vector[float32]\<close> on a well-formed buffer of one \<open>float64\<close> (tag 2)
  panics at the type assertion \<open>elem.(T)\<close>, and \<open>LineString.Scan\<close> on a buffer of 29
  bytes that declares two points and holds one panics at the slice expression
  \<open>data[offset:offset+8]\<close> of the second point.
\<close>

theorem Scan_panics:
  "\<forall>L. Vector_Scan L Float32 Vector_zero (Bytes (fresh double_vector)) = Panic \<and>
        LineString_Scan L LineString_zero (Bytes (fresh short_path)) = Panic"
  by (simp add: double_vector_panics short_path_panics)

text \<open>
  C3. The claim says that \<open>Scan(nil)\<close> leaves \<open>Valid\<close> false whatever the receiver held.
  \<open>Vector.Scan\<close> does so. \<open>JSON.Scan\<close> does not: it returns no error and leaves the
  receiver as it was, so a receiver that was valid stays valid with its old data.
  \<open>Point\<close>, \<open>LineString\<close> and \<open>StringArray\<close> have no \<open>Valid\<close> field; their \<open>Scan(nil)\<close>
  returns no error and leaves the receiver as it was.
\<close>

theorem Scan_nil:
  "JSON_Scan unmarshal \<lparr>JSON.Data = d, JSON.Valid = True\<rparr> Null
     = Return \<lparr>JSON.Data = d, JSON.Valid = True\<rparr> None \<and>
   Vector_Scan L T v Null = Return (v\<lparr>Valid := False\<rparr>) None \<and>
   Point_Scan L p Null = Return p None \<and>
   LineString_Scan L l Null = Return l None \<and>
   StringArray_Scan L a Null = Return a None"
  by (simp add: JSON_Scan_def Vector_Scan_def Point_Scan_def LineString_Scan_def
      StringArray_Scan_def)

section \<open>Claims about StringArray\<close>

lemma Unmarshal_strings_null: "Unmarshal_strings L ''null'' q = (None, None)"
  by (simp add: Unmarshal_strings_def json_trim_def json_space_def)

lemma Unmarshal_strings_empty: "Unmarshal_strings L ''[]'' q = (Some [], None)"
  by (simp add: Unmarshal_strings_def json_trim_def json_space_def is_empty_array_def)

lemma StringArray_Scan_null_text:
  "StringArray_Scan L q (Bytes (bytes_of_string L ''null'')) = Return None None"
  by (simp add: StringArray_Scan_def StringArray_unmarshal_def Unmarshal_strings_null)

lemma StringArray_Scan_empty_text:
  "StringArray_Scan L q (Bytes (bytes_of_string L ''[]'')) = Return (Some []) None"
  by (simp add: StringArray_Scan_def StringArray_unmarshal_def Unmarshal_strings_empty)

text \<open>
  C8 (as amended). \<open>StringArray.Value\<close> never returns \<open>nil\<close> and never an error: it
  returns the text that \<open>json.Marshal\<close> writes. For a slice that is not nil this is an
  array literal, \<open>[]\<close> when the slice is empty; for the nil slice, which is the zero
  value of \<open>StringArray\<close> and an empty list too, it is the text \<open>null\<close>. \<open>Scan\<close> of
  the encoding of an empty list, nil or not, returns no error and the same list,
  whatever the receiver held before.
\<close>

theorem StringArray_encoding:
  "(\<exists>b. StringArray_Value L p = Return (Bytes b) None \<and> string_of_bytes b = Marshal_strings L p) \<and>
   (\<forall>xs. p = Some xs \<longrightarrow>
      Marshal_strings L p = ''['' @ join (map (json_string L) xs) '','' @ '']'') \<and>
   (p = Some [] \<longrightarrow> Marshal_strings L p = ''[]'') \<and>
   (p = None \<longrightarrow> Marshal_strings L p = ''null'') \<and>
   (p = None \<or> p = Some [] \<longrightarrow>
      (\<exists>b. StringArray_Value L p = Return (Bytes b) None \<and>
           StringArray_Scan L q (Bytes b) = Return p None))"
proof (intro conjI allI impI)
  show "\<exists>b. StringArray_Value L p = Return (Bytes b) None \<and> string_of_bytes b = Marshal_strings L p"
    by (simp add: StringArray_Value_def)
next
  fix xs
  assume "p = Some xs"
  then show "Marshal_strings L p = ''['' @ join (map (json_string L) xs) '','' @ '']''"
    by (simp add: Marshal_strings_def)
next
  assume "p = Some []"
  then show "Marshal_strings L p = ''[]''"
    by (simp add: Marshal_strings_def)
next
  assume "p = None"
  then show "Marshal_strings L p = ''null''"
    by (simp add: Marshal_strings_def)
next
  assume "p = None \<or> p = Some []"
  then have "StringArray_Scan L q (Bytes (bytes_of_string L (Marshal_strings L p))) = Return p None"
    by (auto simp: Marshal_strings_def StringArray_Scan_null_text StringArray_Scan_empty_text)
  then show "\<exists>b. StringArray_Value L p = Return (Bytes b) None \<and>
           StringArray_Scan L q (Bytes b) = Return p None"
    by (simp add: StringArray_Value_def)
qed

theorem StringArray_encoding_witness:
  "\<forall>L. StringArray_Value L (Some []) = Return (Bytes (bytes_of_string L ''[]'')) None \<and>
        StringArray_Scan L (Some [''a'', ''b'']) (Bytes (bytes_of_string L ''[]'')) = Return (Some []) None \<and>
        Marshal_strings L (Some [''a'', ''b''])
          = ''['' @ json_string L ''a'' @ '','' @ json_string L ''b'' @ '']''"
proof
  fix L
  have m: "Marshal_strings L (Some []) = ''[]''"
    using StringArray_encoding[of L "Some []"] by simp
  obtain b where b: "StringArray_Value L (Some []) = Return (Bytes b) None"
      "StringArray_Scan L (Some [''a'', ''b'']) (Bytes b) = Return (Some []) None"
    using StringArray_encoding[of L "Some []" "Some [''a'', ''b'']"] by blast
  have "b = bytes_of_string L ''[]''"
    using b(1) m by (simp add: StringArray_Value_def)
  moreover have "Marshal_strings L (Some [''a'', ''b''])
          = ''['' @ json_string L ''a'' @ '','' @ json_string L ''b'' @ '']''"
    using StringArray_encoding[of L "Some [''a'', ''b'']"] by simp
  ultimately show "StringArray_Value L (Some []) = Return (Bytes (bytes_of_string L ''[]'')) None \<and>
        StringArray_Scan L (Some [''a'', ''b'']) (Bytes (bytes_of_string L ''[]'')) = Return (Some []) None \<and>
        Marshal_strings L (Some [''a'', ''b''])
          = ''['' @ json_string L ''a'' @ '','' @ json_string L ''b'' @ '']''"
    using b by simp
qed

text \<open>
  The claim as stated fails for the nil slice, an empty list: its encoding is the
  text \<open>null\<close>, not \<open>[]\<close>.
\<close>

theorem StringArray_encoding_counterexample:
  "\<forall>L. StringArray_Value L None = Return (Bytes (bytes_of_string L ''null'')) None \<and>
        string_of_bytes (bytes_of_string L ''null'') \<noteq> ''[]''"
  by (simp add: StringArray_Value_def Marshal_strings_def)

end
